theory Spec2Isabelle
  imports Complex_Main
begin

section \<open>Data model\<close>

text \<open>
  The program reads every sheet of an Excel workbook into a pandas DataFrame and draws one
  bar chart per numeric column into a PDF. A DataFrame is modelled as the ordered list of
  its named columns. A column has a numeric dtype (integers, floats, booleans; a blank
  cell is NaN) or holds text without blank cells. Floating point numbers are abstracted to
  reals plus NaN. Column labels of a frame read from Excel are pairwise distinct and all
  columns have the same number of rows: \<open>well_formed\<close>.

  The plotting library is modelled where the program depends on it: what \<open>ax.bar\<close>,
  \<open>ax.set_ylim\<close> and \<open>ax.legend\<close> refuse, how identical axis limits are widened, and
  that a text is laid out unless it holds a formula that does not parse. The formula
  parser itself is a parameter of the model.
\<close>

datatype num = Fin real | NaN

datatype column = Numeric "num list" | Text "string list"

type_synonym dataframe = "(string \<times> column) list"

fun is_numeric_dtype :: "column \<Rightarrow> bool" where
  "is_numeric_dtype (Numeric vs) = True"
| "is_numeric_dtype (Text ss) = False"

fun col_len :: "column \<Rightarrow> nat" where
  "col_len (Numeric vs) = length vs"
| "col_len (Text ss) = length ss"

definition columns :: "dataframe \<Rightarrow> string list" where
  "columns df = map fst df"

text \<open>\<open>df[name]\<close>: the column stored under a label, if there is one.\<close>

definition getitem :: "dataframe \<Rightarrow> string \<Rightarrow> column option" where
  "getitem df name = map_of df name"

text \<open>\<open>len(df.index)\<close>: the number of rows.\<close>

definition n_rows :: "dataframe \<Rightarrow> nat" where
  "n_rows df = (case df of [] \<Rightarrow> 0 | (name, c) # rest \<Rightarrow> col_len c)"

text \<open>\<open>df.empty\<close>: no columns or no rows.\<close>

definition df_empty :: "dataframe \<Rightarrow> bool" where
  "df_empty df = (df = [] \<or> n_rows df = 0)"

definition well_formed :: "dataframe \<Rightarrow> bool" where
  "well_formed df = (distinct (columns df) \<and> list_all (\<lambda>(name, c). col_len c = n_rows df) df)"

text \<open>
  \<open>df[name] = c\<close>: an existing column is replaced where it stands, a new one is added
  at the end.
\<close>

definition setitem :: "dataframe \<Rightarrow> string \<Rightarrow> column \<Rightarrow> dataframe" where
  "setitem df name c =
     (if name \<in> set (columns df)
      then map (\<lambda>(n, old). if n = name then (n, c) else (n, old)) df
      else df @ [(name, c)])"

text \<open>
  The string form of a cell. A text cell is its string. The digits Python prints for a
  float are not modelled: the string form of a number is kept symbolic.
\<close>

datatype label = Str string | StrOf num

fun astype_str :: "column \<Rightarrow> label list" where
  "astype_str (Text ss) = map Str ss"
| "astype_str (Numeric vs) = map StrOf vs"

text \<open>The decimal digits of a row position, as \<open>str\<close> prints an integer.\<close>

fun str_nat :: "nat \<Rightarrow> string" where
  "str_nat n =
     (if n < 10 then [''0123456789'' ! n]
      else str_nat (n div 10) @ [''0123456789'' ! (n mod 10)])"

declare str_nat.simps [simp del]

text \<open>\<open>df.index.astype(str)\<close> for the default index \<open>0, 1, ..., n - 1\<close>.\<close>

definition index_astype_str :: "dataframe \<Rightarrow> string list" where
  "index_astype_str df = map str_nat [0..<n_rows df]"

section \<open>Charts and pages\<close>

text \<open>
  An exception, with what its message depends on. The handler of the main loop prints the
  message only, so the cause stands for the message: a \<open>KeyError\<close> names the label, a
  \<open>TypeError\<close> the array of text that was given where numbers are needed, and a
  \<open>ValueError\<close> is one of: a negative error bar, an axis limit that is NaN, a legend with
  no column, a formula that does not parse among the texts of a figure.
\<close>

datatype reason = NegativeErrorBar | LimitNotFinite | NoLegendColumns | Formula "label list"

datatype exn = ZeroDivisionError | TypeError column | ValueError reason | KeyError string

record chart_spec =
  title :: string
  categories :: "label list"
  heights :: column
  yerr :: "column option"
  color :: "string list"
  ylim :: "real \<times> real"
  legend_labels :: "label list"
  legend_ncol :: nat

text \<open>
  A page of the PDF: a chart, or the text page written for a sheet whose rendering raised
  an exception (the sheet name and the exception).
\<close>

datatype page = ChartPage chart_spec | ErrorPage string exn

type_synonym pdf = "page list"

section \<open>Text drawn by the plotting library\<close>

text \<open>
  The plotting library reads a text between dollar signs as a formula and raises a
  \<open>ValueError\<close> when the formula does not parse. A text without a dollar sign is never a
  formula and is always drawn. What the library does with a text that holds a dollar
  sign is not in the source: it is the parameter \<open>parses\<close> for a title or a label, and the
  parameter \<open>draws_error\<close> for the wrapped text of the page written for a failed sheet.
\<close>

record library =
  parses :: "string \<Rightarrow> bool"
  draws_error :: "string \<Rightarrow> exn \<Rightarrow> bool"

definition dollar_free :: "string \<Rightarrow> bool" where
  "dollar_free s = (CHR ''$'' \<notin> set s)"

fun draws :: "library \<Rightarrow> label \<Rightarrow> bool" where
  "draws lib (Str s) = (dollar_free s \<or> parses lib s)"
| "draws lib (StrOf v) = True"

text \<open>
  \<open>plt.tight_layout()\<close> measures every text of the figure: the title and the category
  labels (they are the tick labels and the legend entries).
\<close>

definition tight_layout :: "library \<Rightarrow> label list \<Rightarrow> exn option" where
  "tight_layout lib texts =
     (if list_all (draws lib) texts then None else Some (ValueError (Formula texts)))"

text \<open>
  The data a message can quote. The fixed wording of a message holds no dollar sign.
\<close>

fun label_text :: "label \<Rightarrow> string" where
  "label_text (Str s) = s"
| "label_text (StrOf v) = []"

fun quoted :: "exn \<Rightarrow> string list" where
  "quoted ZeroDivisionError = []"
| "quoted (KeyError name) = [name]"
| "quoted (TypeError (Text ss)) = ss"
| "quoted (TypeError (Numeric vs)) = []"
| "quoted (ValueError (Formula texts)) = map label_text texts"
| "quoted (ValueError r) = []"

text \<open>
  The handler of the main loop draws the text \<open>Fehler in Sheet\<close>, the sheet name in
  quotes and, on a new line, the message of the exception, with \<open>ax.text\<close> and
  \<open>pdf.savefig\<close>. Without a dollar sign in the sheet name and in what the message quotes,
  the page is drawn; otherwise the library decides.
\<close>

definition error_page_draws :: "library \<Rightarrow> string \<Rightarrow> exn \<Rightarrow> bool" where
  "error_page_draws lib sheet e =
     (if dollar_free sheet \<and> list_all dollar_free (quoted e) then True
      else draws_error lib sheet e)"

text \<open>
  To run the program on a concrete workbook the library has to be fixed. This one refuses
  every text that holds a dollar sign. On a workbook without dollar signs the run is the
  same with every library (\<open>plain_workbook_any_library\<close> below), and on the sheet name
  \<open>$^$\<close> this library answers as the plotting library does.
\<close>

definition no_formulas :: library where
  "no_formulas = \<lparr>parses = (\<lambda>s. False), draws_error = (\<lambda>sheet e. False)\<rparr>"

section \<open>Palettes\<close>

definition colourways :: "(string \<times> string list) list" where
  "colourways =
     [(''Blau/Grau (Standard Big4)'', [''#002060'', ''#0050b3'', ''#7f7f7f'']),
      (''Gr'' @ [CHR 0xC3, CHR 0xBC] @ ''n/T'' @ [CHR 0xC3, CHR 0xBC] @ ''rkis'',
         [''#006400'', ''#009999'', ''#a6a6a6'']),
      (''Lila/Beere'', [''#4B004B'', ''#732673'', ''#B380B3'']),
      (''Orange/Grau'', [''#E46C0A'', ''#F4B183'', ''#7f7f7f''])]"

section \<open>Column classification\<close>

text \<open>
  \<open>find_category_column\<close>: the label of the first column that is not numeric, walking the
  columns in their declared order.
\<close>

fun find_category_column :: "dataframe \<Rightarrow> string option" where
  "find_category_column [] = None"
| "find_category_column ((col, c) # rest) =
     (if \<not> is_numeric_dtype c then Some col else find_category_column rest)"

text \<open>
  The head of \<open>render_sheet_to_pdf\<close>: without a category column the frame is copied and the
  string form of the index is stored under the label \<open>Index\<close>.
\<close>

definition with_category :: "dataframe \<Rightarrow> dataframe \<times> string" where
  "with_category df =
     (case find_category_column df of
        None \<Rightarrow> (setitem df ''Index'' (Text (index_astype_str df)), ''Index'')
      | Some cat_col \<Rightarrow> (df, cat_col))"

definition value_cols :: "dataframe \<Rightarrow> string list" where
  "value_cols df = map fst (filter (\<lambda>(name, c). is_numeric_dtype c) df)"

text \<open>The probe for the error column of a value column: the first candidate label present.\<close>

definition candidates :: "string \<Rightarrow> string list" where
  "candidates col = [col @ ''_Fehler'', col @ ''_SD'', col @ ''_Error'']"

fun probe :: "dataframe \<Rightarrow> string list \<Rightarrow> string option" where
  "probe df [] = None"
| "probe df (candidate # others) =
     (if candidate \<in> set (columns df) then Some candidate else probe df others)"

definition find_error_col :: "dataframe \<Rightarrow> string \<Rightarrow> string option" where
  "find_error_col df col = probe df (candidates col)"

section \<open>Building one chart\<close>

text \<open>
  Python's \<open>max\<close> keeps the first item and replaces it by every later item that compares
  greater; every comparison with NaN is false.
\<close>

fun num_gt :: "num \<Rightarrow> num \<Rightarrow> bool" where
  "num_gt (Fin a) (Fin b) = (b < a)"
| "num_gt a b = False"

fun py_max :: "num \<Rightarrow> num list \<Rightarrow> num" where
  "py_max best [] = best"
| "py_max best (v # vs) = py_max (if num_gt v best then v else best) vs"

fun num_times :: "num \<Rightarrow> real \<Rightarrow> num" where
  "num_times (Fin a) k = Fin (a * k)"
| "num_times NaN k = NaN"

text \<open>
  The upper limit passed to \<open>set_ylim\<close>: \<open>max(values) * 1.2 if len(values) > 0 else 1\<close>.
  A string cannot be multiplied by a float.
\<close>

fun y_upper :: "column \<Rightarrow> exn + num" where
  "y_upper (Numeric []) = Inr (Fin 1)"
| "y_upper (Numeric (v # vs)) = Inr (num_times (py_max v vs) 1.2)"
| "y_upper (Text []) = Inr (Fin 1)"
| "y_upper (Text (s # ss)) = Inl (TypeError (Text (s # ss)))"

text \<open>\<open>[colors[i % len(colors)] for i in range(len(categories))]\<close>\<close>

definition cycle_colors :: "string list \<Rightarrow> nat \<Rightarrow> exn + string list" where
  "cycle_colors colors n =
     (if colors = [] \<and> 0 < n then Inl ZeroDivisionError
      else Inr (map (\<lambda>i. colors ! (i mod length colors)) [0..<n]))"

text \<open>
  What the plotting library refuses in \<open>ax.bar(..., yerr=errors)\<close>: error bars that are not
  numbers (the sign of a string cannot be taken) and negative error bars. NaN error bars
  are skipped.
\<close>

fun is_negative :: "num \<Rightarrow> bool" where
  "is_negative (Fin a) = (a < 0)"
| "is_negative NaN = False"

fun check_yerr :: "column option \<Rightarrow> exn option" where
  "check_yerr None = None"
| "check_yerr (Some (Text ss)) = Some (TypeError (Text ss))"
| "check_yerr (Some (Numeric es)) =
     (if list_ex is_negative es then Some (ValueError NegativeErrorBar) else None)"

text \<open>
  \<open>ax.set_ylim(0, upper)\<close> refuses a limit that is NaN, and widens the identical limits
  \<open>0, 0\<close> to \<open>-0.05, 0.05\<close>. A negative limit is kept: the axis is then upside down.
\<close>

fun set_ylim :: "num \<Rightarrow> exn + real \<times> real" where
  "set_ylim (Fin upper) = Inr (if upper = 0 then (- 0.05, 0.05) else (0, upper))"
| "set_ylim NaN = Inl (ValueError LimitNotFinite)"

text \<open>
  \<open>ax.legend(bars, categories, ..., ncol=len(categories), ...)\<close> cannot split its entries
  into no column: without categories it raises.
\<close>

definition legend :: "label list \<Rightarrow> exn option" where
  "legend cats = (if cats = [] then Some (ValueError NoLegendColumns) else None)"

definition title_sep :: string where
  "title_sep = [CHR '' '', CHR 0xE2, CHR 0x80, CHR 0x93, CHR '' '']"

text \<open>
  The body of the loop over the value columns up to \<open>pdf.savefig\<close>, in the order in which
  the source evaluates it: the values and the error column are looked up, the colour list
  is computed, the bars are drawn, the y-axis is set, the title is set, the legend is
  built, and \<open>plt.tight_layout()\<close> lays the texts out. Grid, spines and tick parameters
  accept what they are given.
\<close>

definition lookup_errors :: "dataframe \<Rightarrow> string \<Rightarrow> exn + column option" where
  "lookup_errors df col =
     (case find_error_col df col of
        None \<Rightarrow> Inr None
      | Some error_col \<Rightarrow>
          (case getitem df error_col of
             None \<Rightarrow> Inl (KeyError error_col)
           | Some e \<Rightarrow> Inr (Some e)))"

definition build_chart ::
  "library \<Rightarrow> dataframe \<Rightarrow> label list \<Rightarrow> string \<Rightarrow> string list \<Rightarrow> string \<Rightarrow>
     exn + chart_spec" where
  "build_chart lib df cats sheet_label colors col =
     (case getitem df col of
        None \<Rightarrow> Inl (KeyError col)
      | Some vals \<Rightarrow>
     (case lookup_errors df col of
        Inl x \<Rightarrow> Inl x
      | Inr errs \<Rightarrow>
     (case cycle_colors colors (length cats) of
        Inl x \<Rightarrow> Inl x
      | Inr cs \<Rightarrow>
     (case check_yerr errs of
        Some x \<Rightarrow> Inl x
      | None \<Rightarrow>
     (case y_upper vals of
        Inl x \<Rightarrow> Inl x
      | Inr upper \<Rightarrow>
     (case set_ylim upper of
        Inl x \<Rightarrow> Inl x
      | Inr yl \<Rightarrow>
     (case legend cats of
        Some x \<Rightarrow> Inl x
      | None \<Rightarrow>
     (case tight_layout lib (Str (sheet_label @ title_sep @ col) # cats) of
        Some x \<Rightarrow> Inl x
      | None \<Rightarrow>
          Inr \<lparr>title = sheet_label @ title_sep @ col,
               categories = cats,
               heights = vals,
               yerr = errs,
               color = cs,
               ylim = yl,
               legend_labels = cats,
               legend_ncol = length cats\<rparr>))))))))"

section \<open>Rendering a sheet\<close>

text \<open>
  The loop of \<open>render_sheet_to_pdf\<close> over the value columns. Every finished chart is saved
  to the PDF at once; an exception leaves the loop with the pages saved so far.
\<close>

fun render_columns ::
  "library \<Rightarrow> dataframe \<Rightarrow> label list \<Rightarrow> string \<Rightarrow> string list \<Rightarrow> string list \<Rightarrow> pdf \<Rightarrow>
     pdf \<times> exn option" where
  "render_columns lib df cats sheet_label colors [] pdf = (pdf, None)"
| "render_columns lib df cats sheet_label colors (col # cols) pdf =
     (case build_chart lib df cats sheet_label colors col of
        Inl x \<Rightarrow> (pdf, Some x)
      | Inr ch \<Rightarrow> render_columns lib df cats sheet_label colors cols (pdf @ [ChartPage ch]))"

definition render_sheet_to_pdf ::
  "library \<Rightarrow> dataframe \<Rightarrow> pdf \<Rightarrow> string \<Rightarrow> string list \<Rightarrow> pdf \<times> exn option" where
  "render_sheet_to_pdf lib df0 pdf sheet_label colors =
     (case with_category df0 of
        (df, cat_col) \<Rightarrow>
          (case getitem df cat_col of
             None \<Rightarrow> (pdf, Some (KeyError cat_col))
           | Some c \<Rightarrow>
               render_columns lib df (astype_str c) sheet_label colors (value_cols df) pdf))"

section \<open>The main loop\<close>

type_synonym workbook = "(string \<times> dataframe) list"

text \<open>
  One round of the loop over the sheets: an empty frame is skipped; an exception raised
  by \<open>render_sheet_to_pdf\<close> is caught and a text page is saved after whatever the sheet
  has saved before. Nothing catches an exception raised while that text page is drawn:
  it ends the run, and no document is handed out (\<open>None\<close>).
\<close>

definition sheet_step :: "library \<Rightarrow> string list \<Rightarrow> pdf \<Rightarrow> string \<times> dataframe \<Rightarrow> pdf option" where
  "sheet_step lib colors pdf s =
     (case s of
        (sheet, df) \<Rightarrow>
          if df_empty df then Some pdf
          else (case render_sheet_to_pdf lib df pdf sheet colors of
                  (pdf', None) \<Rightarrow> Some pdf'
                | (pdf', Some e) \<Rightarrow>
                    if error_page_draws lib sheet e then Some (pdf' @ [ErrorPage sheet e])
                    else None))"

fun main_loop :: "library \<Rightarrow> string list \<Rightarrow> workbook \<Rightarrow> pdf \<Rightarrow> pdf option" where
  "main_loop lib colors [] pdf = Some pdf"
| "main_loop lib colors (s # sheets) pdf =
     (case sheet_step lib colors pdf s of
        None \<Rightarrow> None
      | Some pdf' \<Rightarrow> main_loop lib colors sheets pdf')"

definition generate_pdf :: "library \<Rightarrow> string list \<Rightarrow> workbook \<Rightarrow> pdf option" where
  "generate_pdf lib colors wb = main_loop lib colors wb []"

text \<open>The pages one sheet adds to an empty PDF, when its round ends without an exception.\<close>

definition sheet_pages :: "library \<Rightarrow> string list \<Rightarrow> string \<times> dataframe \<Rightarrow> pdf option" where
  "sheet_pages lib colors s = sheet_step lib colors [] s"


text \<open>
  A workbook in which no sheet name, no column label and no text cell holds a dollar sign.
\<close>

fun plain_column :: "column \<Rightarrow> bool" where
  "plain_column (Text ss) = list_all dollar_free ss"
| "plain_column (Numeric vs) = True"

definition plain_frame :: "dataframe \<Rightarrow> bool" where
  "plain_frame df = list_all (\<lambda>(name, c). dollar_free name \<and> plain_column c) df"

definition plain_workbook :: "workbook \<Rightarrow> bool" where
  "plain_workbook wb = list_all (\<lambda>(sheet, df). dollar_free sheet \<and> plain_frame df) wb"

section \<open>The PDF grows by appending\<close>

lemma colourways_not_empty: "list_all (\<lambda>(name, colors). colors \<noteq> []) colourways"
  by (simp add: colourways_def)

lemma render_columns_prefix:
  "render_columns lib df cats l cs cols pdf = (pdf', r) \<Longrightarrow>
   render_columns lib df cats l cs cols (q @ pdf) = (q @ pdf', r)"
proof (induction cols arbitrary: pdf)
  case Nil
  then show ?case by simp
next
  case (Cons col cols)
  show ?case
  proof (cases "build_chart lib df cats l cs col")
    case (Inl x)
    with Cons.prems show ?thesis by simp
  next
    case (Inr ch)
    with Cons.prems have "render_columns lib df cats l cs cols (pdf @ [ChartPage ch]) = (pdf', r)"
      by simp
    from Cons.IH [OF this] Inr show ?thesis by simp
  qed
qed

lemma render_columns_ok:
  "render_columns lib df cats l cs cols pdf = (pdf', None) \<Longrightarrow>
   \<exists>chs. map (build_chart lib df cats l cs) cols = map Inr chs \<and> pdf' = pdf @ map ChartPage chs"
proof (induction cols arbitrary: pdf)
  case Nil
  then show ?case by simp
next
  case (Cons col cols)
  show ?case
  proof (cases "build_chart lib df cats l cs col")
    case (Inl x)
    with Cons.prems show ?thesis by simp
  next
    case (Inr ch)
    with Cons.prems have "render_columns lib df cats l cs cols (pdf @ [ChartPage ch]) = (pdf', None)"
      by simp
    from Cons.IH [OF this] obtain chs where
      "map (build_chart lib df cats l cs) cols = map Inr chs" "pdf' = (pdf @ [ChartPage ch]) @ map ChartPage chs"
      by blast
    with Inr have "map (build_chart lib df cats l cs) (col # cols) = map Inr (ch # chs) \<and>
        pdf' = pdf @ map ChartPage (ch # chs)" by simp
    then show ?thesis by blast
  qed
qed

lemma render_columns_fail:
  "render_columns lib df cats l cs cols pdf = (pdf', Some e) \<Longrightarrow>
   \<exists>k chs. k < length cols \<and> map (build_chart lib df cats l cs) (take k cols) = map Inr chs \<and>
     build_chart lib df cats l cs (cols ! k) = Inl e \<and> pdf' = pdf @ map ChartPage chs"
proof (induction cols arbitrary: pdf)
  case Nil
  then show ?case by simp
next
  case (Cons col cols)
  show ?case
  proof (cases "build_chart lib df cats l cs col")
    case (Inl x)
    with Cons.prems have "x = e" "pdf' = pdf" by simp_all
    with Inl have "0 < length (col # cols) \<and>
        map (build_chart lib df cats l cs) (take 0 (col # cols)) = map Inr [] \<and>
        build_chart lib df cats l cs ((col # cols) ! 0) = Inl e \<and> pdf' = pdf @ map ChartPage []"
      by simp
    then show ?thesis by blast
  next
    case (Inr ch)
    with Cons.prems have "render_columns lib df cats l cs cols (pdf @ [ChartPage ch]) = (pdf', Some e)"
      by simp
    from Cons.IH [OF this] obtain k chs where
      "k < length cols" "map (build_chart lib df cats l cs) (take k cols) = map Inr chs"
      "build_chart lib df cats l cs (cols ! k) = Inl e" "pdf' = (pdf @ [ChartPage ch]) @ map ChartPage chs"
      by blast
    with Inr have "Suc k < length (col # cols) \<and>
        map (build_chart lib df cats l cs) (take (Suc k) (col # cols)) = map Inr (ch # chs) \<and>
        build_chart lib df cats l cs ((col # cols) ! Suc k) = Inl e \<and> pdf' = pdf @ map ChartPage (ch # chs)"
      by simp
    then show ?thesis by blast
  qed
qed

lemma render_sheet_prefix:
  "render_sheet_to_pdf lib df pdf l cs = (pdf', r) \<Longrightarrow>
   render_sheet_to_pdf lib df (q @ pdf) l cs = (q @ pdf', r)"
  by (auto simp: render_sheet_to_pdf_def split: prod.splits option.splits
      dest: render_columns_prefix)

lemma sheet_step_pages:
  "sheet_step lib cs pdf s = map_option ((@) pdf) (sheet_pages lib cs s)"
proof (cases s)
  case (Pair sheet df)
  show ?thesis
  proof (cases "render_sheet_to_pdf lib df [] sheet cs")
    case (Pair p r)
    from render_sheet_prefix [OF this, of pdf]
    have "render_sheet_to_pdf lib df pdf sheet cs = (pdf @ p, r)" by simp
    with Pair \<open>s = (sheet, df)\<close> show ?thesis
      by (simp add: sheet_step_def sheet_pages_def split: option.splits)
  qed
qed

lemma main_loop_pages:
  "(main_loop lib cs wb pdf = Some out) =
   (\<exists>pss. map (sheet_pages lib cs) wb = map Some pss \<and> out = pdf @ concat pss)"
proof (induction wb arbitrary: pdf)
  case Nil
  then show ?case by auto
next
  case (Cons s wb)
  show ?case
  proof (cases "sheet_pages lib cs s")
    case None
    then show ?thesis by (auto simp: sheet_step_pages map_eq_Cons_conv)
  next
    case (Some ps)
    have "(\<exists>pss. map (sheet_pages lib cs) (s # wb) = map Some pss \<and> out = pdf @ concat pss) =
        (\<exists>pss. map (sheet_pages lib cs) wb = map Some pss \<and> out = (pdf @ ps) @ concat pss)"
    proof
      assume "\<exists>pss. map (sheet_pages lib cs) (s # wb) = map Some pss \<and> out = pdf @ concat pss"
      then obtain pss where p: "map (sheet_pages lib cs) (s # wb) = map Some pss"
        "out = pdf @ concat pss" by blast
      then obtain q qs where q: "pss = q # qs" by (cases pss) auto
      with p Some have "map (sheet_pages lib cs) wb = map Some qs" "out = (pdf @ ps) @ concat qs"
        by simp_all
      then show "\<exists>pss. map (sheet_pages lib cs) wb = map Some pss \<and> out = (pdf @ ps) @ concat pss"
        by blast
    next
      assume "\<exists>pss. map (sheet_pages lib cs) wb = map Some pss \<and> out = (pdf @ ps) @ concat pss"
      then obtain qs where "map (sheet_pages lib cs) wb = map Some qs"
        "out = (pdf @ ps) @ concat qs" by blast
      with Some have "map (sheet_pages lib cs) (s # wb) = map Some (ps # qs) \<and>
          out = pdf @ concat (ps # qs)" by simp
      then show "\<exists>pss. map (sheet_pages lib cs) (s # wb) = map Some pss \<and> out = pdf @ concat pss"
        by blast
    qed
    with Some Cons.IH [of "pdf @ ps"] show ?thesis by (simp add: sheet_step_pages)
  qed
qed

lemma generate_pdf_concat:
  "(generate_pdf lib cs wb = Some out) =
   (\<exists>pss. map (sheet_pages lib cs) wb = map Some pss \<and> out = concat pss)"
  by (simp add: generate_pdf_def main_loop_pages)

section \<open>Where a chart page comes from\<close>

lemma render_columns_chart_origin:
  "render_columns lib df cats l cs cols pdf = (pdf', r) \<Longrightarrow> ChartPage ch \<in> set pdf' \<Longrightarrow>
   ChartPage ch \<in> set pdf \<or> (\<exists>col. col \<in> set cols \<and> build_chart lib df cats l cs col = Inr ch)"
proof (induction cols arbitrary: pdf)
  case Nil
  then show ?case by simp
next
  case (Cons col cols)
  show ?case
  proof (cases "build_chart lib df cats l cs col")
    case (Inl x)
    with Cons.prems show ?thesis by simp
  next
    case (Inr ch')
    with Cons.prems have "render_columns lib df cats l cs cols (pdf @ [ChartPage ch']) = (pdf', r)"
      by simp
    from Cons.IH [OF this Cons.prems(2)] Inr show ?thesis by auto
  qed
qed

lemma find_category_column_Some:
  "find_category_column df = Some cat_col \<Longrightarrow>
   \<exists>pre c post. df = pre @ (cat_col, c) # post \<and> list_all (\<lambda>(n, k). is_numeric_dtype k) pre \<and>
     \<not> is_numeric_dtype c"
proof (induction df)
  case Nil
  then show ?case by simp
next
  case (Cons p df)
  obtain n k where p: "p = (n, k)" by (cases p)
  show ?case
  proof (cases "is_numeric_dtype k")
    case True
    with Cons.prems p have "find_category_column df = Some cat_col" by simp
    from Cons.IH [OF this] obtain pre c post where
      "df = pre @ (cat_col, c) # post" "list_all (\<lambda>(n, k). is_numeric_dtype k) pre"
      "\<not> is_numeric_dtype c" by blast
    with True p have "p # df = (p # pre) @ (cat_col, c) # post \<and>
        list_all (\<lambda>(n, k). is_numeric_dtype k) (p # pre) \<and> \<not> is_numeric_dtype c"
      by simp
    then show ?thesis by blast
  next
    case False
    with Cons.prems p have "n = cat_col" by simp
    with False p have "p # df = [] @ (cat_col, k) # df \<and>
        list_all (\<lambda>(n, k). is_numeric_dtype k) [] \<and> \<not> is_numeric_dtype k"
      by simp
    then show ?thesis by blast
  qed
qed

lemma find_category_column_None:
  "(find_category_column df = None) = list_all (\<lambda>(n, k). is_numeric_dtype k) df"
  by (induction df) (auto split: if_splits)

lemma find_category_column_exists:
  "\<not> list_all (\<lambda>(n, k). is_numeric_dtype k) df \<Longrightarrow> \<exists>c. find_category_column df = Some c"
  by (cases "find_category_column df") (simp_all add: find_category_column_None)

lemma getitem_setitem: "getitem (setitem df name c) name = Some c"
proof (cases "name \<in> set (columns df)")
  case True
  then have "map_of (map (\<lambda>(n, old). if n = name then (n, c) else (n, old)) df) name = Some c"
    by (induction df) (auto simp: columns_def)
  with True show ?thesis by (simp add: getitem_def setitem_def)
next
  case False
  then have "map_of df name = None" by (simp add: columns_def map_of_eq_None_iff)
  with False show ?thesis by (simp add: getitem_def setitem_def map_add_def)
qed

lemma getitem_setitem_other: "n \<noteq> name \<Longrightarrow> getitem (setitem df name c) n = getitem df n"
proof -
  assume neq: "n \<noteq> name"
  have "map_of (map (\<lambda>(n, old). if n = name then (n, c) else (n, old)) df) n = map_of df n"
    using neq by (induction df) auto
  with neq show ?thesis by (auto simp: getitem_def setitem_def map_add_def split: option.splits)
qed

lemma columns_setitem:
  "columns (setitem df name c) = (if name \<in> set (columns df) then columns df else columns df @ [name])"
proof -
  have "map fst (map (\<lambda>(n, old). if n = name then (n, c) else (n, old)) df) = map fst df"
    by (induction df) auto
  then show ?thesis by (simp add: setitem_def columns_def)
qed

lemma getitem_distinct:
  "distinct (columns df) \<Longrightarrow> (getitem df n = Some c) = ((n, c) \<in> set df)"
  by (simp add: getitem_def columns_def)

lemma category_column_present:
  "with_category df0 = (df, cat_col) \<Longrightarrow> \<exists>c. getitem df cat_col = Some c"
proof (cases "find_category_column df0")
  case None
  assume "with_category df0 = (df, cat_col)"
  with None show ?thesis by (auto simp: with_category_def getitem_setitem)
next
  case (Some a)
  assume "with_category df0 = (df, cat_col)"
  with Some have eq: "df = df0" "cat_col = a" by (simp_all add: with_category_def)
  from find_category_column_Some [OF Some] obtain pre c post where "df0 = pre @ (a, c) # post"
    by blast
  then have "a \<in> fst ` set df0" by force
  then have "map_of df0 a \<noteq> None" by (simp add: map_of_eq_None_iff)
  with eq show ?thesis by (auto simp: getitem_def)
qed

lemma chart_page_origin:
  assumes "ChartPage ch \<in> set (fst (render_sheet_to_pdf lib df0 [] l cs))"
  shows "\<exists>df cat_col c col. with_category df0 = (df, cat_col) \<and> getitem df cat_col = Some c \<and>
     col \<in> set (value_cols df) \<and> build_chart lib df (astype_str c) l cs col = Inr ch"
proof -
  obtain df cat_col where wc: "with_category df0 = (df, cat_col)" by (cases "with_category df0")
  from category_column_present [OF wc] obtain c where c: "getitem df cat_col = Some c" by blast
  obtain pdf' r where rc: "render_columns lib df (astype_str c) l cs (value_cols df) [] = (pdf', r)"
    by (cases "render_columns lib df (astype_str c) l cs (value_cols df) []")
  with wc c have "render_sheet_to_pdf lib df0 [] l cs = (pdf', r)"
    by (simp add: render_sheet_to_pdf_def)
  with assms have "ChartPage ch \<in> set pdf'" by simp
  from render_columns_chart_origin [OF rc this] obtain col where
    "col \<in> set (value_cols df)" "build_chart lib df (astype_str c) l cs col = Inr ch" by auto
  with wc c show ?thesis by blast
qed

lemma build_chart_title:
  "build_chart lib df cats l cs col = Inr ch \<Longrightarrow> title ch = l @ title_sep @ col"
  by (auto simp: build_chart_def split: option.splits sum.splits)

lemma built_titles:
  "map (build_chart lib df cats l cs) cols = map Inr chs \<Longrightarrow>
   map title chs = map (\<lambda>col. l @ title_sep @ col) cols"
proof (induction cols arbitrary: chs)
  case Nil
  then show ?case by simp
next
  case (Cons col cols)
  then obtain ch chs' where chs: "chs = ch # chs'" by (cases chs) auto
  with Cons.prems have "build_chart lib df cats l cs col = Inr ch"
    "map (build_chart lib df cats l cs) cols = map Inr chs'" by simp_all
  with Cons.IH [of chs'] chs show ?case by (simp add: build_chart_title)
qed

lemma render_sheet_cases:
  assumes "with_category df0 = (df, cat_col)"
  shows "\<exists>c. getitem df cat_col = Some c \<and>
    render_sheet_to_pdf lib df0 pdf l cs = render_columns lib df (astype_str c) l cs (value_cols df) pdf"
proof -
  from category_column_present [OF assms] obtain c where "getitem df cat_col = Some c" by blast
  with assms show ?thesis by (simp add: render_sheet_to_pdf_def)
qed

lemma build_chart_fields:
  assumes "build_chart lib df cats l cs col = Inr ch"
  shows "categories ch = cats" "getitem df col = Some (heights ch)"
    "lookup_errors df col = Inr (yerr ch)" "cycle_colors cs (length cats) = Inr (color ch)"
    "check_yerr (yerr ch) = None"
    "\<exists>upper. y_upper (heights ch) = Inr upper \<and> set_ylim upper = Inr (ylim ch)"
    "legend_labels ch = cats" "legend_ncol ch = length cats"
    "cats \<noteq> []" "list_all (draws lib) (Str (l @ title_sep @ col) # cats)"
  using assms
  by (auto simp: build_chart_def legend_def tight_layout_def
      split: option.splits sum.splits if_splits)

lemma find_error_col_priority:
  "find_error_col df x =
     (if x @ ''_Fehler'' \<in> set (columns df) then Some (x @ ''_Fehler'')
      else if x @ ''_SD'' \<in> set (columns df) then Some (x @ ''_SD'')
      else if x @ ''_Error'' \<in> set (columns df) then Some (x @ ''_Error'')
      else None)"
  by (simp add: find_error_col_def candidates_def)

lemma find_error_col_present:
  "find_error_col df x = Some e \<Longrightarrow> \<exists>c. getitem df e = Some c"
proof -
  assume "find_error_col df x = Some e"
  then have "e \<in> set (columns df)"
    by (auto simp: find_error_col_priority split: if_splits)
  then have "map_of df e \<noteq> None" by (simp add: columns_def map_of_eq_None_iff)
  then show ?thesis by (auto simp: getitem_def)
qed

lemma lookup_errors_eq:
  "lookup_errors df x = Inr (case find_error_col df x of None \<Rightarrow> None | Some e \<Rightarrow> getitem df e)"
proof (cases "find_error_col df x")
  case None
  then show ?thesis by (simp add: lookup_errors_def)
next
  case (Some e)
  from find_error_col_present [OF this] obtain c where "getitem df e = Some c" by blast
  with Some show ?thesis by (simp add: lookup_errors_def)
qed

lemma build_chart_yerr:
  "build_chart lib df cats l cs x = Inr ch \<Longrightarrow>
   yerr ch = (case find_error_col df x of None \<Rightarrow> None | Some e \<Rightarrow> getitem df e)"
  using build_chart_fields(3) [of lib df cats l cs x ch] by (simp add: lookup_errors_eq)



lemma cycle_colors_nth:
  assumes "cycle_colors cs n = Inr out" "cs \<noteq> []"
  shows "length out = n \<and> (\<forall>i<n. out ! i = cs ! (i mod length cs))"
  using assms by (auto simp: cycle_colors_def)

text \<open>The definitions unfolded to run the program on a concrete workbook.\<close>

lemma title_sep_dollar_free: "CHR ''$'' \<notin> set title_sep"
  by (simp add: title_sep_def)

lemma digit_dollar_free: "k < 10 \<Longrightarrow> ''0123456789'' ! k \<noteq> CHR ''$''"
proof -
  assume "k < 10"
  then have "''0123456789'' ! k \<in> set ''0123456789''" by (intro nth_mem) simp
  then show ?thesis by auto
qed

lemma str_nat_dollar_free: "CHR ''$'' \<notin> set (str_nat n)"
proof (induction n rule: str_nat.induct)
  case (1 n)
  show ?case
  proof (cases "n < 10")
    case True
    with digit_dollar_free [of n] show ?thesis by (subst str_nat.simps) auto
  next
    case False
    have "n mod 10 < 10" by simp
    from digit_dollar_free [OF this] "1" False show ?thesis by (subst str_nat.simps) auto
  qed
qed

lemmas run_defs =
  generate_pdf_def sheet_pages_def sheet_step_def df_empty_def n_rows_def
  render_sheet_to_pdf_def with_category_def setitem_def columns_def index_astype_str_def
  getitem_def value_cols_def build_chart_def lookup_errors_def find_error_col_def
  candidates_def cycle_colors_def legend_def tight_layout_def dollar_free_def
  error_page_draws_def title_sep_dollar_free str_nat_dollar_free





lemma with_category_distinct:
  assumes "distinct (columns df0)" "with_category df0 = (df, cat_col)"
  shows "distinct (columns df)"
  using assms by (auto simp: with_category_def columns_setitem split: option.splits)


lemma length_astype_str: "length (astype_str c) = col_len c"
  by (cases c) simp_all

lemma well_formed_getitem_len:
  assumes "well_formed df" "getitem df n = Some c"
  shows "col_len c = n_rows df"
proof -
  from assms(2) have "(n, c) \<in> set df" by (simp add: getitem_def map_of_SomeD)
  with assms(1) show ?thesis by (auto simp: well_formed_def list_all_iff)
qed

lemma n_rows_setitem:
  assumes "col_len c = n_rows df"
  shows "n_rows (setitem df name c) = n_rows df"
proof (cases df)
  case Nil
  with assms show ?thesis by (simp add: setitem_def n_rows_def columns_def)
next
  case (Cons p rest)
  obtain n k where "p = (n, k)" by (cases p)
  with Cons assms show ?thesis by (simp add: setitem_def n_rows_def columns_def)
qed

lemma set_setitem:
  "(n, k) \<in> set (setitem df name c) \<Longrightarrow> (n, k) \<in> set df \<or> (n, k) = (name, c)"
  by (auto simp: setitem_def split: if_splits)

lemma well_formed_setitem:
  assumes "well_formed df" "col_len c = n_rows df"
  shows "well_formed (setitem df name c)"
proof -
  from assms(1) have "distinct (columns (setitem df name c))"
    by (simp add: well_formed_def columns_setitem)
  moreover have "list_all (\<lambda>(n, k). col_len k = n_rows (setitem df name c)) (setitem df name c)"
    unfolding list_all_iff n_rows_setitem [OF assms(2)]
    using assms set_setitem [of _ _ df name c] by (fastforce simp: well_formed_def list_all_iff)
  ultimately show ?thesis by (simp add: well_formed_def)
qed

lemma well_formed_with_category:
  assumes "well_formed df0" "with_category df0 = (df, cat_col)"
  shows "well_formed df \<and> n_rows df = n_rows df0"
proof (cases "find_category_column df0")
  case None
  have "col_len (Text (index_astype_str df0)) = n_rows df0" by (simp add: index_astype_str_def)
  from well_formed_setitem [OF assms(1) this] n_rows_setitem [OF this] None assms(2)
  show ?thesis by (auto simp: with_category_def)
next
  case (Some a)
  with assms show ?thesis by (simp add: with_category_def)
qed

lemma value_cols_subset: "set (value_cols df) \<subseteq> set (columns df)"
  by (auto simp: value_cols_def columns_def)

lemma value_cols_setitem_text:
  "value_cols (setitem df name (Text ss)) = filter (\<lambda>n. n \<noteq> name) (value_cols df)"
proof (cases "name \<in> set (columns df)")
  case True
  have "map fst (filter (\<lambda>(n, k). is_numeric_dtype k)
          (map (\<lambda>(n, old). if n = name then (n, Text ss) else (n, old)) df)) =
        filter (\<lambda>n. n \<noteq> name) (map fst (filter (\<lambda>(n, k). is_numeric_dtype k) df))"
    by (induction df) auto
  with True show ?thesis by (simp add: setitem_def value_cols_def)
next
  case False
  with value_cols_subset [of df] have "\<forall>n\<in>set (value_cols df). n \<noteq> name" by auto
  then have "filter (\<lambda>n. n \<noteq> name) (value_cols df) = value_cols df" by simp
  moreover from False have "value_cols (setitem df name (Text ss)) = value_cols df"
    by (simp add: setitem_def value_cols_def)
  ultimately show ?thesis by simp
qed

lemma with_category_all_numeric:
  assumes "list_all (\<lambda>(n, k). is_numeric_dtype k) df0"
  shows "find_category_column df0 = None"
    "with_category df0 = (setitem df0 ''Index'' (Text (map str_nat [0..<n_rows df0])), ''Index'')"
proof -
  from assms show n: "find_category_column df0 = None" by (simp add: find_category_column_None)
  then show "with_category df0 =
      (setitem df0 ''Index'' (Text (map str_nat [0..<n_rows df0])), ''Index'')"
    by (simp add: with_category_def index_astype_str_def)
qed

lemma all_numeric_categories:
  assumes "list_all (\<lambda>(n, k). is_numeric_dtype k) df0"
    and "ChartPage ch \<in> set (fst (render_sheet_to_pdf lib df0 [] l cs))"
  shows "categories ch = map Str (map str_nat [0..<n_rows df0])"
    "\<exists>col. col \<in> set (value_cols df0) \<and> col \<noteq> ''Index'' \<and> title ch = l @ title_sep @ col"
proof -
  from chart_page_origin [OF assms(2)] obtain df cat_col c col where
    wc: "with_category df0 = (df, cat_col)" and c: "getitem df cat_col = Some c" and
    col: "col \<in> set (value_cols df)" and
    b: "build_chart lib df (astype_str c) l cs col = Inr ch" by blast
  from wc with_category_all_numeric(2) [OF assms(1)] have
    df: "df = setitem df0 ''Index'' (Text (map str_nat [0..<n_rows df0]))" and
    cat: "cat_col = ''Index''" by auto
  from c df cat have "c = Text (map str_nat [0..<n_rows df0])" by (simp add: getitem_setitem)
  with build_chart_fields(1) [OF b] show "categories ch = map Str (map str_nat [0..<n_rows df0])"
    by simp
  from col df have "col \<in> set (value_cols df0)" "col \<noteq> ''Index''"
    by (simp_all add: value_cols_setitem_text)
  with build_chart_title [OF b]
  show "\<exists>col. col \<in> set (value_cols df0) \<and> col \<noteq> ''Index'' \<and> title ch = l @ title_sep @ col"
    by blast
qed

lemma text_category_labels:
  assumes "find_category_column df0 = Some cat_col" "df0 = pre @ (cat_col, c) # post"
    "distinct (columns df0)"
    and "ChartPage ch \<in> set (fst (render_sheet_to_pdf lib df0 [] l cs))"
  shows "categories ch = astype_str c"
proof -
  from chart_page_origin [OF assms(4)] obtain df cc c' col where
    wc: "with_category df0 = (df, cc)" and c: "getitem df cc = Some c'" and
    b: "build_chart lib df (astype_str c') l cs col = Inr ch" by blast
  from wc assms(1) have "df = df0" "cc = cat_col" by (simp_all add: with_category_def)
  with c have "getitem df0 cat_col = Some c'" by simp
  moreover from assms(2) have "(cat_col, c) \<in> set df0" by simp
  then have "getitem df0 cat_col = Some c" using assms(3) by (simp add: getitem_distinct)
  ultimately have "c' = c" by simp
  with build_chart_fields(1) [OF b] show ?thesis by simp
qed

lemma built_member:
  assumes "map f xs = map Inr ys" "x \<in> set xs"
  shows "\<exists>y. y \<in> set ys \<and> f x = Inr y"
proof -
  from assms(2) obtain i where i: "i < length xs" "xs ! i = x" by (auto simp: in_set_conv_nth)
  from assms(1) have len: "length ys = length xs" by (rule map_eq_imp_length_eq [symmetric])
  from i have "f x = map f xs ! i" by simp
  also from assms(1) i len have "\<dots> = Inr (ys ! i)" by simp
  finally show ?thesis using i len by auto
qed

lemma numeric_column_is_value_col:
  "getitem df e = Some (Numeric es) \<Longrightarrow> e \<in> set (value_cols df)"
proof -
  assume "getitem df e = Some (Numeric es)"
  then have "(e, Numeric es) \<in> set df" by (simp add: getitem_def map_of_SomeD)
  then show ?thesis by (force simp: value_cols_def)
qed

lemma successful_sheet_charts:
  assumes "with_category df0 = (df, cat_col)" "render_sheet_to_pdf lib df0 [] sheet cs = (pages, None)"
    "x \<in> set (value_cols df)"
  shows "\<exists>c ch. getitem df cat_col = Some c \<and> ChartPage ch \<in> set pages \<and>
    build_chart lib df (astype_str c) sheet cs x = Inr ch"
proof -
  from render_sheet_cases [OF assms(1)] assms(2) obtain c where
    c: "getitem df cat_col = Some c" and
    rc: "render_columns lib df (astype_str c) sheet cs (value_cols df) [] = (pages, None)" by metis
  from render_columns_ok [OF rc] obtain chs where
    m: "map (build_chart lib df (astype_str c) sheet cs) (value_cols df) = map Inr chs" and
    p: "pages = map ChartPage chs" by auto
  from built_member [OF m assms(3)] obtain ch where
    "ch \<in> set chs" "build_chart lib df (astype_str c) sheet cs x = Inr ch" by blast
  with c p show ?thesis by auto
qed

lemma sheet_pages_of_sheet:
  assumes "\<not> df_empty df" and "sheet_pages lib cs (sheet, df) = Some ps"
  shows "\<exists>d cat_col c chs k. with_category df = (d, cat_col) \<and> getitem d cat_col = Some c \<and>
     k \<le> length (value_cols d) \<and>
     map (build_chart lib d (astype_str c) sheet cs) (take k (value_cols d)) = map Inr chs \<and>
     map title chs = map (\<lambda>col. sheet @ title_sep @ col) (take k (value_cols d)) \<and>
     (k = length (value_cols d) \<and> ps = map ChartPage chs \<or>
      (\<exists>e. k < length (value_cols d) \<and>
         build_chart lib d (astype_str c) sheet cs (value_cols d ! k) = Inl e \<and>
         ps = map ChartPage chs @ [ErrorPage sheet e]))"
proof -
  obtain d cat_col where wc: "with_category df = (d, cat_col)" by (cases "with_category df")
  from render_sheet_cases [OF wc] obtain c where c: "getitem d cat_col = Some c" and
    rs: "render_sheet_to_pdf lib df [] sheet cs =
      render_columns lib d (astype_str c) sheet cs (value_cols d) []" by blast
  obtain p r where rc: "render_columns lib d (astype_str c) sheet cs (value_cols d) [] = (p, r)"
    by (cases "render_columns lib d (astype_str c) sheet cs (value_cols d) []")
  show ?thesis
  proof (cases r)
    case None
    with rc render_columns_ok obtain chs where
      m: "map (build_chart lib d (astype_str c) sheet cs) (value_cols d) = map Inr chs" and
      p: "p = [] @ map ChartPage chs" by blast
    from assms rs rc None p have ps: "ps = map ChartPage chs"
      by (simp add: sheet_pages_def sheet_step_def)
    from m have "map (build_chart lib d (astype_str c) sheet cs)
        (take (length (value_cols d)) (value_cols d)) = map Inr chs" by simp
    moreover from built_titles [OF m] have "map title chs =
        map (\<lambda>col. sheet @ title_sep @ col) (take (length (value_cols d)) (value_cols d))"
      by simp
    ultimately show ?thesis using wc c ps by blast
  next
    case (Some e)
    with rc render_columns_fail obtain k chs where
      k: "k < length (value_cols d)" and
      m: "map (build_chart lib d (astype_str c) sheet cs) (take k (value_cols d)) = map Inr chs" and
      e: "build_chart lib d (astype_str c) sheet cs (value_cols d ! k) = Inl e" and
      p: "p = [] @ map ChartPage chs" by blast
    from assms rs rc Some p have ps: "ps = map ChartPage chs @ [ErrorPage sheet e]"
      by (simp add: sheet_pages_def sheet_step_def split: if_splits)
    from k have "k \<le> length (value_cols d)" by simp
    with built_titles [OF m] wc c m k e ps show ?thesis by blast
  qed
qed

lemma charts_only:
  assumes "[ChartPage a, ChartPage b] = map ChartPage chs @ rest"
    and "rest = [] \<or> (\<exists>e. rest = [ErrorPage s e])"
  shows "chs = [a, b] \<and> rest = []"
proof -
  from assms(2) show ?thesis
  proof
    assume "rest = []"
    with assms(1) show ?thesis by (auto simp: map_eq_Cons_conv)
  next
    assume "\<exists>e. rest = [ErrorPage s e]"
    then obtain e where "rest = [ErrorPage s e]" ..
    with assms(1) have "last [ChartPage a, ChartPage b] = ErrorPage s e"
      by (metis last_snoc)
    then show ?thesis by simp
  qed
qed

text \<open>
  Two sheets without a dollar sign, run with any library: the library is never asked.
\<close>

lemma nan_column_sheet_any_library:
  "render_sheet_to_pdf lib
     [(''Name'', Text [''a'', ''b'']), (''A'', Numeric [Fin 5, Fin 10]),
      (''B'', Numeric [Fin 3, Fin 4]), (''B_SD'', Numeric [NaN, NaN])]
     [] ''S'' [''#002060'', ''#0050b3'', ''#7f7f7f''] =
     ([ChartPage \<lparr>title = ''S'' @ title_sep @ ''A'',
         categories = [Str ''a'', Str ''b''],
         heights = Numeric [Fin 5, Fin 10],
         yerr = None,
         color = [''#002060'', ''#0050b3''],
         ylim = (0, 12),
         legend_labels = [Str ''a'', Str ''b''],
         legend_ncol = 2\<rparr>,
       ChartPage \<lparr>title = ''S'' @ title_sep @ ''B'',
         categories = [Str ''a'', Str ''b''],
         heights = Numeric [Fin 3, Fin 4],
         yerr = Some (Numeric [NaN, NaN]),
         color = [''#002060'', ''#0050b3''],
         ylim = (0, 4.8),
         legend_labels = [Str ''a'', Str ''b''],
         legend_ncol = 2\<rparr>],
      Some (ValueError LimitNotFinite))"
  by (simp add: run_defs)


section \<open>A workbook without dollar signs does not depend on the formula parser\<close>

lemma plain_getitem:
  assumes "plain_frame df" "getitem df n = Some c"
  shows "dollar_free n" "plain_column c"
proof -
  from assms(2) have "(n, c) \<in> set df" by (simp add: getitem_def map_of_SomeD)
  with assms(1) show "dollar_free n" "plain_column c"
    by (auto simp: plain_frame_def list_all_iff)
qed

lemma plain_labels_draw: "plain_column c \<Longrightarrow> list_all (draws lib) (astype_str c)"
  by (cases c) (auto simp: list_all_iff)

lemma plain_title: "dollar_free l \<Longrightarrow> dollar_free col \<Longrightarrow> dollar_free (l @ title_sep @ col)"
  by (simp add: dollar_free_def title_sep_dollar_free)

lemma plain_error_col:
  "find_error_col df col = Some ec \<Longrightarrow> dollar_free col \<Longrightarrow> dollar_free ec"
  by (auto simp: find_error_col_priority dollar_free_def split: if_splits)

lemma plain_setitem:
  assumes "plain_frame df" "dollar_free name" "plain_column c"
  shows "plain_frame (setitem df name c)"
  using assms set_setitem [of _ _ df name c]
  by (fastforce simp: plain_frame_def list_all_iff)

lemma plain_with_category:
  assumes "plain_frame df0" "with_category df0 = (df, cat_col)"
  shows "plain_frame df"
proof (cases "find_category_column df0")
  case None
  have "plain_column (Text (index_astype_str df0))"
    by (simp add: index_astype_str_def list_all_iff dollar_free_def str_nat_dollar_free)
  moreover have "dollar_free ''Index''" by (simp add: dollar_free_def)
  ultimately have "plain_frame (setitem df0 ''Index'' (Text (index_astype_str df0)))"
    using assms(1) by (intro plain_setitem)
  with None assms(2) show ?thesis by (auto simp: with_category_def)
next
  case (Some a)
  with assms show ?thesis by (simp add: with_category_def)
qed

lemma plain_value_cols:
  assumes "plain_frame df" "col \<in> set (value_cols df)"
  shows "dollar_free col"
  using assms by (auto simp: plain_frame_def value_cols_def list_all_iff)

lemma build_chart_any_library:
  assumes "dollar_free l" "dollar_free col" "list_all (draws lib) cats" "list_all (draws lib') cats"
  shows "build_chart lib df cats l cs col = build_chart lib' df cats l cs col"
proof -
  from assms have a: "tight_layout lib (Str (l @ title_sep @ col) # cats) = None"
    and b: "tight_layout lib' (Str (l @ title_sep @ col) # cats) = None"
    by (simp_all add: tight_layout_def plain_title)
  show ?thesis unfolding build_chart_def a b by (rule refl)
qed

lemma build_chart_plain_exn:
  assumes "plain_frame df" "dollar_free l" "dollar_free col" "list_all (draws lib) cats"
    and "build_chart lib df cats l cs col = Inl e"
  shows "list_all dollar_free (quoted e)"
proof -
  from assms(2-4) have t: "tight_layout lib (Str (l @ title_sep @ col) # cats) = None"
    by (simp add: tight_layout_def plain_title)
  show ?thesis
  proof (cases "getitem df col")
    case None
    with assms(5) assms(3) show ?thesis by (auto simp: build_chart_def)
  next
    case (Some vals)
    from plain_getitem(2) [OF assms(1) Some] have pv: "plain_column vals" .
    have pe: "list_all dollar_free (quoted x)" if "lookup_errors df col = Inl x" for x
    proof -
      from that obtain ec where "find_error_col df col = Some ec" "x = KeyError ec"
        by (auto simp: lookup_errors_def split: option.splits)
      with plain_error_col [OF _ assms(3)] show ?thesis by simp
    qed
    have pc: "list_all dollar_free (quoted x)" if "cycle_colors cs (length cats) = Inl x" for x
      using that by (auto simp: cycle_colors_def split: if_splits)
    have py: "list_all dollar_free (quoted x)"
      if "lookup_errors df col = Inr errs" "check_yerr errs = Some x" for errs x
    proof (cases errs)
      case None
      with that show ?thesis by simp
    next
      case (Some ecol)
      with that(1) obtain ec where "getitem df ec = Some ecol"
        by (auto simp: lookup_errors_def split: option.splits)
      from plain_getitem(2) [OF assms(1) this] Some that(2) show ?thesis
        by (cases ecol) (auto split: if_splits)
    qed
    have pu: "list_all dollar_free (quoted x)" if "y_upper vals = Inl x" for x
      using that pv by (cases vals rule: y_upper.cases) auto
    have ps: "list_all dollar_free (quoted x)" if "set_ylim u = Inl x" for u x
      using that by (cases u) auto
    have pl: "list_all dollar_free (quoted x)" if "legend cats = Some x" for x
      using that by (auto simp: legend_def split: if_splits)
    from assms(5) Some t pe pc py pu ps pl show ?thesis
      by (auto simp: build_chart_def split: sum.splits option.splits)
  qed
qed

lemma render_columns_any_library:
  assumes "dollar_free l" "list_all dollar_free cols"
    "list_all (draws lib) cats" "list_all (draws lib') cats"
  shows "render_columns lib df cats l cs cols pdf = render_columns lib' df cats l cs cols pdf"
  using assms(2)
proof (induction cols arbitrary: pdf)
  case Nil
  then show ?case by simp
next
  case (Cons col cols)
  then have "dollar_free col" by simp
  from build_chart_any_library [OF assms(1) this assms(3,4)] Cons show ?case
    by (simp split: sum.splits)
qed

lemma render_columns_plain_exn:
  assumes "plain_frame df" "dollar_free l" "list_all dollar_free cols" "list_all (draws lib) cats"
    and "render_columns lib df cats l cs cols pdf = (pdf', Some e)"
  shows "list_all dollar_free (quoted e)"
proof -
  from render_columns_fail [OF assms(5)] obtain k where k: "k < length cols"
    and b: "build_chart lib df cats l cs (cols ! k) = Inl e" by blast
  from k assms(3) have "dollar_free (cols ! k)" by (simp add: list_all_length)
  from build_chart_plain_exn [OF assms(1,2) this assms(4) b] show ?thesis .
qed

lemma plain_sheet:
  assumes "plain_frame df0" "dollar_free l"
  shows "render_sheet_to_pdf lib df0 pdf l cs = render_sheet_to_pdf lib' df0 pdf l cs"
    and "render_sheet_to_pdf lib df0 pdf l cs = (pdf', Some e) \<Longrightarrow>
      list_all dollar_free (quoted e)"
proof -
  obtain df cat_col where wc: "with_category df0 = (df, cat_col)" by (cases "with_category df0")
  from plain_with_category [OF assms(1) wc] have pf: "plain_frame df" .
  from category_column_present [OF wc] obtain c where c: "getitem df cat_col = Some c" by blast
  from plain_getitem(2) [OF pf c] have pc: "plain_column c" .
  from pf have vc: "list_all dollar_free (value_cols df)"
    by (auto simp: list_all_iff dest: plain_value_cols)
  have r: "render_sheet_to_pdf lib'' df0 pdf l cs =
      render_columns lib'' df (astype_str c) l cs (value_cols df) pdf" for lib''
    using wc c by (simp add: render_sheet_to_pdf_def)
  from render_columns_any_library [OF assms(2) vc plain_labels_draw [OF pc] plain_labels_draw [OF pc]]
  show "render_sheet_to_pdf lib df0 pdf l cs = render_sheet_to_pdf lib' df0 pdf l cs"
    by (simp add: r)
  assume "render_sheet_to_pdf lib df0 pdf l cs = (pdf', Some e)"
  then have "render_columns lib df (astype_str c) l cs (value_cols df) pdf = (pdf', Some e)"
    by (simp add: r)
  from render_columns_plain_exn [OF pf assms(2) vc plain_labels_draw [OF pc] this]
  show "list_all dollar_free (quoted e)" .
qed

lemma sheet_step_any_library:
  assumes "dollar_free sheet" "plain_frame df"
  shows "sheet_step lib cs pdf (sheet, df) = sheet_step lib' cs pdf (sheet, df)"
proof -
  obtain p r where pr: "render_sheet_to_pdf lib df pdf sheet cs = (p, r)"
    by (cases "render_sheet_to_pdf lib df pdf sheet cs")
  with plain_sheet(1) [OF assms(2,1), of lib pdf cs lib']
  have pr': "render_sheet_to_pdf lib' df pdf sheet cs = (p, r)" by simp
  have d: "error_page_draws lib'' sheet e" if "r = Some e" for e lib''
    using plain_sheet(2) [OF assms(2,1), of lib pdf cs p e] pr that assms(1)
    by (simp add: error_page_draws_def)
  from pr pr' d show ?thesis
    by (cases r) (simp_all add: sheet_step_def)
qed

lemma main_loop_any_library:
  assumes "plain_workbook wb"
  shows "main_loop lib cs wb pdf = main_loop lib' cs wb pdf"
  using assms
proof (induction wb arbitrary: pdf)
  case Nil
  then show ?case by simp
next
  case (Cons s wb)
  obtain sheet df where s: "s = (sheet, df)" by (cases s)
  with Cons.prems have p: "dollar_free sheet" "plain_frame df" "plain_workbook wb"
    by (simp_all add: plain_workbook_def)
  from sheet_step_any_library [OF p(1,2), of lib cs pdf lib'] Cons.IH [OF p(3)] s
  show ?case by (simp split: option.splits)
qed

lemma plain_workbook_any_library:
  "plain_workbook wb \<Longrightarrow> generate_pdf lib cs wb = generate_pdf lib' cs wb"
  by (simp add: generate_pdf_def main_loop_any_library)

section \<open>Claims\<close>

text \<open>
  C1, as the program behaves: the error column found for a value column \<open>x\<close> becomes the
  error bars of the chart of \<open>x\<close>, and it is not taken out of the value columns. When it is
  numeric it is a value column itself, and a sheet that renders without an exception has
  a chart page of its own for it.
\<close>

theorem error_column_is_charted_too:
  assumes "with_category df0 = (df, cat_col)" and "x \<in> set (value_cols df)"
    and "find_error_col df x = Some e" and "getitem df e = Some (Numeric es)"
  shows "e \<in> set (value_cols df) \<and>
    (render_sheet_to_pdf lib df0 [] sheet cs = (pages, None) \<longrightarrow>
       (\<exists>chx che. ChartPage chx \<in> set pages \<and> title chx = sheet @ title_sep @ x \<and>
          yerr chx = Some (Numeric es) \<and>
          ChartPage che \<in> set pages \<and> title che = sheet @ title_sep @ e \<and>
          heights che = Numeric es))"
proof (intro conjI impI)
  show e: "e \<in> set (value_cols df)" by (rule numeric_column_is_value_col [OF assms(4)])
  assume r: "render_sheet_to_pdf lib df0 [] sheet cs = (pages, None)"
  from successful_sheet_charts [OF assms(1) r assms(2)] obtain c chx where
    x: "ChartPage chx \<in> set pages" "build_chart lib df (astype_str c) sheet cs x = Inr chx" by blast
  from successful_sheet_charts [OF assms(1) r e] obtain c' che where
    e': "ChartPage che \<in> set pages" "build_chart lib df (astype_str c') sheet cs e = Inr che" by blast
  from build_chart_yerr [OF x(2)] assms(3,4) have "yerr chx = Some (Numeric es)" by simp
  moreover from build_chart_fields(2) [OF e'(2)] assms(4) have "heights che = Numeric es" by simp
  ultimately show "\<exists>chx che. ChartPage chx \<in> set pages \<and> title chx = sheet @ title_sep @ x \<and>
          yerr chx = Some (Numeric es) \<and>
          ChartPage che \<in> set pages \<and> title che = sheet @ title_sep @ e \<and>
          heights che = Numeric es"
    using x(1) e'(1) build_chart_title [OF x(2)] build_chart_title [OF e'(2)] by blast
qed

theorem error_column_is_charted_too_witness:
  "''Revenue_SD'' \<in> set (value_cols
      [(''Region'', Text [''North'', ''South'']), (''Revenue'', Numeric [Fin 100, Fin 80]),
       (''Revenue_SD'', Numeric [Fin 5, Fin 3])]) \<and>
   (\<exists>pages chx che.
      render_sheet_to_pdf no_formulas
        [(''Region'', Text [''North'', ''South'']), (''Revenue'', Numeric [Fin 100, Fin 80]),
         (''Revenue_SD'', Numeric [Fin 5, Fin 3])] [] ''Q1'' [''#002060''] = (pages, None) \<and>
      ChartPage chx \<in> set pages \<and> title chx = ''Q1'' @ title_sep @ ''Revenue'' \<and>
      yerr chx = Some (Numeric [Fin 5, Fin 3]) \<and>
      ChartPage che \<in> set pages \<and> title che = ''Q1'' @ title_sep @ ''Revenue_SD'' \<and>
      heights che = Numeric [Fin 5, Fin 3])"
proof -
  let ?d = "[(''Region'', Text [''North'', ''South'']), (''Revenue'', Numeric [Fin 100, Fin 80]),
       (''Revenue_SD'', Numeric [Fin 5, Fin 3])]"
  let ?cs = "[''#002060'']"
  have w: "with_category ?d = (?d, ''Region'')" by (simp add: with_category_def)
  have x: "''Revenue'' \<in> set (value_cols ?d)" by (simp add: value_cols_def)
  have f: "find_error_col ?d ''Revenue'' = Some ''Revenue_SD''"
    by (simp add: find_error_col_def candidates_def columns_def)
  have g: "getitem ?d ''Revenue_SD'' = Some (Numeric [Fin 5, Fin 3])" by (simp add: getitem_def)
  have "\<exists>pages. render_sheet_to_pdf no_formulas ?d [] ''Q1'' ?cs = (pages, None)"
    by (simp add: run_defs)
  then obtain pages where r: "render_sheet_to_pdf no_formulas ?d [] ''Q1'' ?cs = (pages, None)" ..
  note t = error_column_is_charted_too [OF w x f g, of no_formulas "''Q1''" ?cs pages]
  note a = t [THEN conjunct1]
  note b = t [THEN conjunct2, rule_format, OF r]
  from b r have "\<exists>pages chx che.
      render_sheet_to_pdf no_formulas ?d [] ''Q1'' ?cs = (pages, None) \<and>
      ChartPage chx \<in> set pages \<and> title chx = ''Q1'' @ title_sep @ ''Revenue'' \<and>
      yerr chx = Some (Numeric [Fin 5, Fin 3]) \<and>
      ChartPage che \<in> set pages \<and> title che = ''Q1'' @ title_sep @ ''Revenue_SD'' \<and>
      heights che = Numeric [Fin 5, Fin 3]" by blast
  with a show ?thesis by (intro conjI)
qed

text \<open>
  C1 as stated fails on the sheet \<open>Q1\<close> with the columns \<open>Region\<close>, \<open>Revenue\<close> and
  \<open>Revenue_SD\<close>: the document has two chart pages, and the second one charts
  \<open>Revenue_SD\<close>, the error column of \<open>Revenue\<close>.
\<close>

theorem error_column_excluded_counterexample:
  "find_error_col
     [(''Region'', Text [''North'', ''South'']), (''Revenue'', Numeric [Fin 100, Fin 80]),
      (''Revenue_SD'', Numeric [Fin 5, Fin 3])] ''Revenue'' = Some ''Revenue_SD'' \<and>
   generate_pdf no_formulas [''#002060'', ''#0050b3'', ''#7f7f7f'']
     [(''Q1'', [(''Region'', Text [''North'', ''South'']), (''Revenue'', Numeric [Fin 100, Fin 80]),
               (''Revenue_SD'', Numeric [Fin 5, Fin 3])])] =
     Some [ChartPage \<lparr>title = ''Q1'' @ title_sep @ ''Revenue'',
        categories = [Str ''North'', Str ''South''],
        heights = Numeric [Fin 100, Fin 80],
        yerr = Some (Numeric [Fin 5, Fin 3]),
        color = [''#002060'', ''#0050b3''],
        ylim = (0, 120),
        legend_labels = [Str ''North'', Str ''South''],
        legend_ncol = 2\<rparr>,
      ChartPage \<lparr>title = ''Q1'' @ title_sep @ ''Revenue_SD'',
        categories = [Str ''North'', Str ''South''],
        heights = Numeric [Fin 5, Fin 3],
        yerr = None,
        color = [''#002060'', ''#0050b3''],
        ylim = (0, 6),
        legend_labels = [Str ''North'', Str ''South''],
        legend_ncol = 2\<rparr>]"
  by (simp add: run_defs)

text \<open>
  C2, as the program behaves: every chart is saved to the PDF as soon as it is drawn. When
  a value column of a sheet raises an exception and the text page for the sheet can be
  drawn, the pages of the sheet are the charts of the value columns before the failing
  one, in their order, followed by exactly one text page with the sheet name and the
  exception.
\<close>

theorem failed_sheet_keeps_finished_charts:
  assumes "\<not> df_empty df0" and "render_sheet_to_pdf lib df0 [] sheet cs = (pages, Some e)"
    and "error_page_draws lib sheet e"
  shows "sheet_pages lib cs (sheet, df0) = Some (pages @ [ErrorPage sheet e]) \<and>
    (\<exists>df cat_col c k chs. with_category df0 = (df, cat_col) \<and> getitem df cat_col = Some c \<and>
       k < length (value_cols df) \<and>
       map (build_chart lib df (astype_str c) sheet cs) (take k (value_cols df)) = map Inr chs \<and>
       build_chart lib df (astype_str c) sheet cs (value_cols df ! k) = Inl e \<and>
       pages = map ChartPage chs)"
proof -
  from assms have 1: "sheet_pages lib cs (sheet, df0) = Some (pages @ [ErrorPage sheet e])"
    by (simp add: sheet_pages_def sheet_step_def)
  obtain df cat_col where wc: "with_category df0 = (df, cat_col)" by (cases "with_category df0")
  from render_sheet_cases [OF wc] assms(2) obtain c where
    c: "getitem df cat_col = Some c" and
    rc: "render_columns lib df (astype_str c) sheet cs (value_cols df) [] = (pages, Some e)"
    by metis
  from render_columns_fail [OF rc] obtain k chs where
    "k < length (value_cols df)"
    "map (build_chart lib df (astype_str c) sheet cs) (take k (value_cols df)) = map Inr chs"
    "build_chart lib df (astype_str c) sheet cs (value_cols df ! k) = Inl e"
    "pages = map ChartPage chs" by auto
  with wc c 1 show ?thesis by blast
qed

theorem failed_sheet_keeps_finished_charts_witness:
  "\<not> df_empty [(''Name'', Text [''a'', ''b'']), (''A'', Numeric [Fin 5, Fin 10]),
      (''B'', Numeric [Fin 3, Fin 4]), (''B_SD'', Numeric [NaN, NaN])] \<and>
   error_page_draws no_formulas ''S'' (ValueError LimitNotFinite) \<and>
   (\<exists>a b. render_sheet_to_pdf no_formulas
        [(''Name'', Text [''a'', ''b'']), (''A'', Numeric [Fin 5, Fin 10]),
         (''B'', Numeric [Fin 3, Fin 4]), (''B_SD'', Numeric [NaN, NaN])]
        [] ''S'' [''#002060'', ''#0050b3'', ''#7f7f7f''] =
          ([ChartPage a, ChartPage b], Some (ValueError LimitNotFinite)) \<and>
      sheet_pages no_formulas [''#002060'', ''#0050b3'', ''#7f7f7f'']
        (''S'', [(''Name'', Text [''a'', ''b'']), (''A'', Numeric [Fin 5, Fin 10]),
                (''B'', Numeric [Fin 3, Fin 4]), (''B_SD'', Numeric [NaN, NaN])]) =
          Some [ChartPage a, ChartPage b, ErrorPage ''S'' (ValueError LimitNotFinite)])"
proof -
  let ?d = "[(''Name'', Text [''a'', ''b'']), (''A'', Numeric [Fin 5, Fin 10]),
      (''B'', Numeric [Fin 3, Fin 4]), (''B_SD'', Numeric [NaN, NaN])]"
  let ?cs = "[''#002060'', ''#0050b3'', ''#7f7f7f'']"
  have ne: "\<not> df_empty ?d" by (simp add: df_empty_def n_rows_def)
  have dr: "error_page_draws no_formulas ''S'' (ValueError LimitNotFinite)"
    by (simp add: error_page_draws_def dollar_free_def)
  have "\<exists>a b. render_sheet_to_pdf no_formulas ?d [] ''S'' ?cs =
      ([ChartPage a, ChartPage b], Some (ValueError LimitNotFinite))"
    by (simp add: nan_column_sheet_any_library)
  then obtain a b where r: "render_sheet_to_pdf no_formulas ?d [] ''S'' ?cs =
      ([ChartPage a, ChartPage b], Some (ValueError LimitNotFinite))" by blast
  note t = failed_sheet_keeps_finished_charts [OF ne r dr, THEN conjunct1]
  have "sheet_pages no_formulas ?cs (''S'', ?d) =
      Some [ChartPage a, ChartPage b, ErrorPage ''S'' (ValueError LimitNotFinite)]"
    using t by (simp only: append.simps)
  with r have "\<exists>a b. render_sheet_to_pdf no_formulas ?d [] ''S'' ?cs =
      ([ChartPage a, ChartPage b], Some (ValueError LimitNotFinite)) \<and>
      sheet_pages no_formulas ?cs (''S'', ?d) =
      Some [ChartPage a, ChartPage b, ErrorPage ''S'' (ValueError LimitNotFinite)]" by blast
  with ne dr show ?thesis by (intro conjI)
qed

text \<open>
  C2 as stated fails on a sheet whose last value column \<open>B_SD\<close> has only blank cells: its
  maximum is NaN and \<open>set_ylim\<close> raises, the charts of \<open>A\<close> and \<open>B\<close> are already in the
  PDF, and the sheet ends up with two chart pages and the text page.
\<close>

theorem failed_sheet_all_or_nothing_counterexample:
  "snd (render_sheet_to_pdf no_formulas
     [(''Name'', Text [''a'', ''b'']), (''A'', Numeric [Fin 5, Fin 10]),
      (''B'', Numeric [Fin 3, Fin 4]), (''B_SD'', Numeric [NaN, NaN])]
     [] ''S'' [''#002060'', ''#0050b3'', ''#7f7f7f'']) = Some (ValueError LimitNotFinite) \<and>
   generate_pdf no_formulas [''#002060'', ''#0050b3'', ''#7f7f7f'']
     [(''S'', [(''Name'', Text [''a'', ''b'']), (''A'', Numeric [Fin 5, Fin 10]),
              (''B'', Numeric [Fin 3, Fin 4]), (''B_SD'', Numeric [NaN, NaN])])] =
     Some [ChartPage \<lparr>title = ''S'' @ title_sep @ ''A'',
         categories = [Str ''a'', Str ''b''],
         heights = Numeric [Fin 5, Fin 10],
         yerr = None,
         color = [''#002060'', ''#0050b3''],
         ylim = (0, 12),
         legend_labels = [Str ''a'', Str ''b''],
         legend_ncol = 2\<rparr>,
       ChartPage \<lparr>title = ''S'' @ title_sep @ ''B'',
         categories = [Str ''a'', Str ''b''],
         heights = Numeric [Fin 3, Fin 4],
         yerr = Some (Numeric [NaN, NaN]),
         color = [''#002060'', ''#0050b3''],
         ylim = (0, 4.8),
         legend_labels = [Str ''a'', Str ''b''],
         legend_ncol = 2\<rparr>,
       ErrorPage ''S'' (ValueError LimitNotFinite)]"
  by (simp add: nan_column_sheet_any_library generate_pdf_def sheet_step_def df_empty_def
      n_rows_def error_page_draws_def dollar_free_def)

text \<open>
  C3: in a frame with a column that is not numeric, the category column is the first such
  column in declared order, and (labels being distinct) its cells are the category labels
  of every chart. In a frame whose columns are all numeric, the row positions
  \<open>0, 1, ...\<close> as strings are stored under the label \<open>Index\<close> and become the categories;
  \<open>Index\<close> is not among the value columns.
\<close>

theorem category_column_choice:
  "(list_ex (\<lambda>(n, k). \<not> is_numeric_dtype k) df0 \<longrightarrow>
      (\<exists>pre cat_col c post. df0 = pre @ (cat_col, c) # post \<and>
         list_all (\<lambda>(n, k). is_numeric_dtype k) pre \<and> \<not> is_numeric_dtype c \<and>
         find_category_column df0 = Some cat_col \<and> with_category df0 = (df0, cat_col) \<and>
         (distinct (columns df0) \<longrightarrow>
            (\<forall>ch. ChartPage ch \<in> set (fst (render_sheet_to_pdf lib df0 [] l cs)) \<longrightarrow>
               categories ch = astype_str c)))) \<and>
   (list_all (\<lambda>(n, k). is_numeric_dtype k) df0 \<longrightarrow>
      find_category_column df0 = None \<and>
      with_category df0 = (setitem df0 ''Index'' (Text (map str_nat [0..<n_rows df0])), ''Index'') \<and>
      ''Index'' \<notin> set (value_cols (fst (with_category df0))) \<and>
      (\<forall>ch. ChartPage ch \<in> set (fst (render_sheet_to_pdf lib df0 [] l cs)) \<longrightarrow>
         categories ch = map Str (map str_nat [0..<n_rows df0])))"
proof (intro conjI impI)
  assume "list_ex (\<lambda>(n, k). \<not> is_numeric_dtype k) df0"
  then have "\<not> list_all (\<lambda>(n, k). is_numeric_dtype k) df0"
    by (auto simp: list_ex_iff list_all_iff)
  from find_category_column_exists [OF this] obtain cat_col where
    f: "find_category_column df0 = Some cat_col" by blast
  from find_category_column_Some [OF f] obtain pre c post where
    s: "df0 = pre @ (cat_col, c) # post" "list_all (\<lambda>(n, k). is_numeric_dtype k) pre"
      "\<not> is_numeric_dtype c" by blast
  from f have w: "with_category df0 = (df0, cat_col)" by (simp add: with_category_def)
  have "distinct (columns df0) \<longrightarrow>
      (\<forall>ch. ChartPage ch \<in> set (fst (render_sheet_to_pdf lib df0 [] l cs)) \<longrightarrow>
         categories ch = astype_str c)"
    using text_category_labels [OF f s(1)] by blast
  with s f w show "\<exists>pre cat_col c post. df0 = pre @ (cat_col, c) # post \<and>
         list_all (\<lambda>(n, k). is_numeric_dtype k) pre \<and> \<not> is_numeric_dtype c \<and>
         find_category_column df0 = Some cat_col \<and> with_category df0 = (df0, cat_col) \<and>
         (distinct (columns df0) \<longrightarrow>
            (\<forall>ch. ChartPage ch \<in> set (fst (render_sheet_to_pdf lib df0 [] l cs)) \<longrightarrow>
               categories ch = astype_str c))" by blast
next
  assume a: "list_all (\<lambda>(n, k). is_numeric_dtype k) df0"
  show "find_category_column df0 = None" by (rule with_category_all_numeric(1) [OF a])
  show "with_category df0 = (setitem df0 ''Index'' (Text (map str_nat [0..<n_rows df0])), ''Index'')"
    by (rule with_category_all_numeric(2) [OF a])
  show "''Index'' \<notin> set (value_cols (fst (with_category df0)))"
    by (simp add: with_category_all_numeric(2) [OF a] value_cols_setitem_text)
  show "\<forall>ch. ChartPage ch \<in> set (fst (render_sheet_to_pdf lib df0 [] l cs)) \<longrightarrow>
         categories ch = map Str (map str_nat [0..<n_rows df0])"
    using all_numeric_categories(1) [OF a] by blast
qed

theorem category_column_choice_witness:
  "(\<exists>ch. fst (render_sheet_to_pdf no_formulas
        [(''Year'', Numeric [Fin 2020, Fin 2021]), (''Region'', Text [''North'', ''South'']),
         (''Note'', Text [''a'', ''b''])] [] ''S'' [''#002060'']) = [ChartPage ch] \<and>
      categories ch = [Str ''North'', Str ''South'']) \<and>
   with_category [(''A'', Numeric [Fin 1, Fin 3]), (''B'', Numeric [Fin 2, Fin 4])] =
     ([(''A'', Numeric [Fin 1, Fin 3]), (''B'', Numeric [Fin 2, Fin 4]),
       (''Index'', Text [''0'', ''1''])], ''Index'') \<and>
   (\<exists>ch ch'. fst (render_sheet_to_pdf no_formulas
        [(''A'', Numeric [Fin 1, Fin 3]), (''B'', Numeric [Fin 2, Fin 4])] [] ''S'' [''#002060'']) =
        [ChartPage ch, ChartPage ch'] \<and>
      categories ch = [Str ''0'', Str ''1''] \<and> categories ch' = [Str ''0'', Str ''1''])"
proof -
  let ?d = "[(''Year'', Numeric [Fin 2020, Fin 2021]), (''Region'', Text [''North'', ''South'']),
         (''Note'', Text [''a'', ''b''])]"
  let ?n = "[(''A'', Numeric [Fin 1, Fin 3]), (''B'', Numeric [Fin 2, Fin 4])]"
  let ?cs = "[''#002060'']"
  have ex: "list_ex (\<lambda>(n, k). \<not> is_numeric_dtype k) ?d" by simp
  have dist: "distinct (columns ?d)" by (simp add: columns_def)
  have "\<exists>ch. fst (render_sheet_to_pdf no_formulas ?d [] ''S'' ?cs) = [ChartPage ch]"
    by (simp add: run_defs)
  then obtain ch where r: "fst (render_sheet_to_pdf no_formulas ?d [] ''S'' ?cs) = [ChartPage ch]" ..
  then have m: "ChartPage ch \<in> set (fst (render_sheet_to_pdf no_formulas ?d [] ''S'' ?cs))" by simp
  note t = category_column_choice [of ?d no_formulas "''S''" ?cs, THEN conjunct1, rule_format, OF ex]
  from t obtain pre cat_col c post where
    d: "?d = pre @ (cat_col, c) # post" and f: "find_category_column ?d = Some cat_col" and
    cats: "distinct (columns ?d) \<longrightarrow>
      (\<forall>ch. ChartPage ch \<in> set (fst (render_sheet_to_pdf no_formulas ?d [] ''S'' ?cs)) \<longrightarrow>
        categories ch = astype_str c)" by (elim exE conjE)
  from f have cc: "cat_col = ''Region''" by simp
  have "(cat_col, c) \<in> set (pre @ (cat_col, c) # post)" by simp
  then have "(cat_col, c) \<in> set ?d" by (simp only: d [symmetric])
  with cc have "c = Text [''North'', ''South'']" by simp
  with cats m dist have 1: "categories ch = [Str ''North'', Str ''South'']" by simp
  have all: "list_all (\<lambda>(n, k). is_numeric_dtype k) ?n" by simp
  have "\<exists>ch ch'. fst (render_sheet_to_pdf no_formulas ?n [] ''S'' ?cs) = [ChartPage ch, ChartPage ch']"
    by (simp add: run_defs)
  then obtain a b where r': "fst (render_sheet_to_pdf no_formulas ?n [] ''S'' ?cs) = [ChartPage a, ChartPage b]"
    by blast
  have idx: "map str_nat [0..<n_rows ?n] = [''0'', ''1'']"
    by (simp add: n_rows_def str_nat.simps upt_conv_Cons)
  note u = category_column_choice [of ?n no_formulas "''S''" ?cs, THEN conjunct2, rule_format, OF all]
  note w = u [THEN conjunct2, THEN conjunct1]
  note k = u [THEN conjunct2, THEN conjunct2, THEN conjunct2, rule_format]
  have ma: "ChartPage a \<in> set (fst (render_sheet_to_pdf no_formulas ?n [] ''S'' ?cs))"
    and mb: "ChartPage b \<in> set (fst (render_sheet_to_pdf no_formulas ?n [] ''S'' ?cs))"
    by (simp_all only: r' list.set_intros insert_iff list.simps(15) simp_thms)
  have 2: "categories a = [Str ''0'', Str ''1'']" "categories b = [Str ''0'', Str ''1'']"
    using k [OF ma] k [OF mb] by (simp_all only: idx list.map)
  have 3: "with_category ?n = (?n @ [(''Index'', Text [''0'', ''1''])], ''Index'')"
    using w by (simp add: idx setitem_def columns_def)
  from r 1 have A: "\<exists>ch. fst (render_sheet_to_pdf no_formulas ?d [] ''S'' ?cs) = [ChartPage ch] \<and>
      categories ch = [Str ''North'', Str ''South'']" by blast
  from r' 2 have B: "\<exists>ch ch'. fst (render_sheet_to_pdf no_formulas ?n [] ''S'' ?cs) = [ChartPage ch, ChartPage ch'] \<and>
      categories ch = [Str ''0'', Str ''1''] \<and> categories ch' = [Str ''0'', Str ''1'']" by blast
  from A 3 B show ?thesis by (intro conjI) simp_all
qed

text \<open>
  C4: the probe for the error column of a value column \<open>x\<close> tries the labels \<open>x_Fehler\<close>,
  \<open>x_SD\<close>, \<open>x_Error\<close> in this order and takes the first one that is a column of the frame.
  The chart of \<open>x\<close> gets that column as its error bars, and no error bars when none of the
  three labels is present.
\<close>

theorem error_column_probe_priority:
  "find_error_col df x =
     (if x @ ''_Fehler'' \<in> set (columns df) then Some (x @ ''_Fehler'')
      else if x @ ''_SD'' \<in> set (columns df) then Some (x @ ''_SD'')
      else if x @ ''_Error'' \<in> set (columns df) then Some (x @ ''_Error'')
      else None) \<and>
   (build_chart lib df cats l cs x = Inr ch \<longrightarrow>
      yerr ch = (case find_error_col df x of None \<Rightarrow> None | Some e \<Rightarrow> getitem df e) \<and>
      (x @ ''_Fehler'' \<notin> set (columns df) \<and> x @ ''_SD'' \<notin> set (columns df) \<and>
       x @ ''_Error'' \<notin> set (columns df) \<longrightarrow> yerr ch = None))"
proof -
  have "build_chart lib df cats l cs x = Inr ch \<Longrightarrow>
      x @ ''_Fehler'' \<notin> set (columns df) \<and> x @ ''_SD'' \<notin> set (columns df) \<and>
       x @ ''_Error'' \<notin> set (columns df) \<Longrightarrow> yerr ch = None"
    using build_chart_yerr [of lib df cats l cs x ch] by (simp add: find_error_col_priority)
  then show ?thesis
    using build_chart_yerr [of lib df cats l cs x ch] find_error_col_priority [of df x] by blast
qed

theorem error_column_probe_priority_witness:
  "find_error_col
     [(''Region'', Text [''N'']), (''X'', Numeric [Fin 1]), (''X_Error'', Numeric [Fin 2]),
      (''X_SD'', Numeric [Fin 3])] ''X'' = Some ''X_SD'' \<and>
   map_sum id yerr (build_chart no_formulas
     [(''Region'', Text [''N'']), (''X'', Numeric [Fin 1]), (''X_Error'', Numeric [Fin 2]),
      (''X_SD'', Numeric [Fin 3])] [Str ''N''] ''S'' [''#002060''] ''X'') = Inr (Some (Numeric [Fin 3])) \<and>
   map_sum id yerr (build_chart no_formulas
     [(''Region'', Text [''N'']), (''X'', Numeric [Fin 1]), (''X_Error'', Numeric [Fin 2]),
      (''X_SD'', Numeric [Fin 3])] [Str ''N''] ''S'' [''#002060''] ''X_SD'') = Inr None"
proof -
  let ?df = "[(''Region'', Text [''N'']), (''X'', Numeric [Fin 1]), (''X_Error'', Numeric [Fin 2]),
      (''X_SD'', Numeric [Fin 3])]"
  have "\<exists>ch. build_chart no_formulas ?df [Str ''N''] ''S'' [''#002060''] ''X'' = Inr ch"
    by (simp add: run_defs)
  then obtain ch where b: "build_chart no_formulas ?df [Str ''N''] ''S'' [''#002060''] ''X'' = Inr ch" ..
  have "\<exists>ch'. build_chart no_formulas ?df [Str ''N''] ''S'' [''#002060''] ''X_SD'' = Inr ch'"
    by (simp add: run_defs)
  then obtain ch' where b': "build_chart no_formulas ?df [Str ''N''] ''S'' [''#002060''] ''X_SD'' = Inr ch'" ..
  from error_column_probe_priority [of ?df "''X''" no_formulas "[Str ''N'']" "''S''" "[''#002060'']" ch] b
  have 1: "find_error_col ?df ''X'' = Some ''X_SD''" "yerr ch = Some (Numeric [Fin 3])"
    by (simp_all add: columns_def getitem_def)
  from error_column_probe_priority [of ?df "''X_SD''" no_formulas "[Str ''N'']" "''S''" "[''#002060'']" ch'] b'
  have 2: "yerr ch' = None"
    by (simp add: columns_def)
  from 1 2 b b' show ?thesis by simp
qed

text \<open>
  C5: a run ends with a document exactly when the round of every sheet ends without an
  exception, and the document is then the pages of the sheets, sheet after sheet in
  workbook order. An empty frame adds no page at all. The pages of any other sheet are
  the charts of its value columns in declared order: all of them when no column fails,
  and otherwise those before the first failing column, followed by the text page with
  the sheet name and the exception.
\<close>

theorem pages_in_sheet_then_column_order:
  "((generate_pdf lib cs wb = Some out) =
      (\<exists>pss. map (sheet_pages lib cs) wb = map Some pss \<and> out = concat pss)) \<and>
   (df_empty df \<longrightarrow> sheet_pages lib cs (sheet, df) = Some []) \<and>
   (\<not> df_empty df \<and> sheet_pages lib cs (sheet, df) = Some ps \<longrightarrow>
      (\<exists>d cat_col c chs k. with_category df = (d, cat_col) \<and> getitem d cat_col = Some c \<and>
         k \<le> length (value_cols d) \<and>
         map (build_chart lib d (astype_str c) sheet cs) (take k (value_cols d)) = map Inr chs \<and>
         map title chs = map (\<lambda>col. sheet @ title_sep @ col) (take k (value_cols d)) \<and>
         (k = length (value_cols d) \<and> ps = map ChartPage chs \<or>
          (\<exists>e. k < length (value_cols d) \<and>
             build_chart lib d (astype_str c) sheet cs (value_cols d ! k) = Inl e \<and>
             ps = map ChartPage chs @ [ErrorPage sheet e]))))"
proof (intro conjI impI)
  show "(generate_pdf lib cs wb = Some out) =
      (\<exists>pss. map (sheet_pages lib cs) wb = map Some pss \<and> out = concat pss)"
    by (rule generate_pdf_concat)
  show "df_empty df \<Longrightarrow> sheet_pages lib cs (sheet, df) = Some []"
    by (simp add: sheet_pages_def sheet_step_def)
  show "\<not> df_empty df \<and> sheet_pages lib cs (sheet, df) = Some ps \<Longrightarrow>
      \<exists>d cat_col c chs k. with_category df = (d, cat_col) \<and> getitem d cat_col = Some c \<and>
         k \<le> length (value_cols d) \<and>
         map (build_chart lib d (astype_str c) sheet cs) (take k (value_cols d)) = map Inr chs \<and>
         map title chs = map (\<lambda>col. sheet @ title_sep @ col) (take k (value_cols d)) \<and>
         (k = length (value_cols d) \<and> ps = map ChartPage chs \<or>
          (\<exists>e. k < length (value_cols d) \<and>
             build_chart lib d (astype_str c) sheet cs (value_cols d ! k) = Inl e \<and>
             ps = map ChartPage chs @ [ErrorPage sheet e]))"
    using sheet_pages_of_sheet [of df lib cs sheet ps] by blast
qed

theorem pages_in_sheet_then_column_order_witness:
  "\<exists>a b c d. generate_pdf no_formulas [''#002060'', ''#0050b3'', ''#7f7f7f'']
      [(''Q1'', [(''Region'', Text [''North'', ''South'']), (''Revenue'', Numeric [Fin 100, Fin 80]),
                (''Revenue_SD'', Numeric [Fin 5, Fin 3])]),
       (''Empty'', [(''Region'', Text [])]),
       (''Bad'', [(''Name'', Text [''a'', ''b'']), (''A'', Numeric [Fin 5, Fin 10]),
                 (''B'', Numeric [Fin 3, Fin 4]), (''B_SD'', Numeric [NaN, NaN])])] =
      Some [ChartPage a, ChartPage b, ChartPage c, ChartPage d,
            ErrorPage ''Bad'' (ValueError LimitNotFinite)] \<and>
    map title [a, b] = [''Q1'' @ title_sep @ ''Revenue'', ''Q1'' @ title_sep @ ''Revenue_SD'']"
proof -
  let ?lib = no_formulas
  let ?cs = "[''#002060'', ''#0050b3'', ''#7f7f7f'']"
  let ?q = "[(''Region'', Text [''North'', ''South'']), (''Revenue'', Numeric [Fin 100, Fin 80]),
                (''Revenue_SD'', Numeric [Fin 5, Fin 3])]"
  let ?e = "[(''Region'', Text [])]"
  let ?f = "[(''Name'', Text [''a'', ''b'']), (''A'', Numeric [Fin 5, Fin 10]),
                 (''B'', Numeric [Fin 3, Fin 4]), (''B_SD'', Numeric [NaN, NaN])]"
  let ?wb = "[(''Q1'', ?q), (''Empty'', ?e), (''Bad'', ?f)]"
  have "\<exists>a b. sheet_pages ?lib ?cs (''Q1'', ?q) = Some [ChartPage a, ChartPage b]"
    by (simp add: run_defs)
  then obtain a b where s1: "sheet_pages ?lib ?cs (''Q1'', ?q) = Some [ChartPage a, ChartPage b]"
    by blast
  have em: "df_empty ?e" by (simp add: df_empty_def n_rows_def)
  have s2: "sheet_pages ?lib ?cs (''Empty'', ?e) = Some []"
    by (rule pages_in_sheet_then_column_order
        [THEN conjunct2, THEN conjunct1, rule_format, OF em])
  have "\<exists>c d. sheet_pages ?lib ?cs (''Bad'', ?f) =
      Some [ChartPage c, ChartPage d, ErrorPage ''Bad'' (ValueError LimitNotFinite)]"
    by (simp add: run_defs)
  then obtain c d where s3: "sheet_pages ?lib ?cs (''Bad'', ?f) =
      Some [ChartPage c, ChartPage d, ErrorPage ''Bad'' (ValueError LimitNotFinite)]" by blast
  have "map (sheet_pages ?lib ?cs) ?wb =
      map Some [[ChartPage a, ChartPage b], [],
        [ChartPage c, ChartPage d, ErrorPage ''Bad'' (ValueError LimitNotFinite)]]"
    by (simp only: list.map s1 s2 s3)
  then have "\<exists>pss. map (sheet_pages ?lib ?cs) ?wb = map Some pss \<and>
      [ChartPage a, ChartPage b, ChartPage c, ChartPage d,
       ErrorPage ''Bad'' (ValueError LimitNotFinite)] = concat pss"
    by (intro exI conjI, assumption) simp
  with pages_in_sheet_then_column_order [of ?lib ?cs ?wb, THEN conjunct1]
  have g: "generate_pdf ?lib ?cs ?wb =
      Some [ChartPage a, ChartPage b, ChartPage c, ChartPage d,
            ErrorPage ''Bad'' (ValueError LimitNotFinite)]" by blast
  have ne: "\<not> df_empty ?q" by (simp add: df_empty_def n_rows_def)
  have wq: "with_category ?q = (?q, ''Region'')" by (simp add: with_category_def)
  have vq: "value_cols ?q = [''Revenue'', ''Revenue_SD'']" by (simp add: value_cols_def)
  from pages_in_sheet_then_column_order
    [THEN conjunct2, THEN conjunct2, rule_format, OF conjI, OF ne s1]
  obtain dd cat_col cc chs k where
    w: "with_category ?q = (dd, cat_col)" and
    k: "k \<le> length (value_cols dd)" and
    t: "map title chs = map (\<lambda>col. ''Q1'' @ title_sep @ col) (take k (value_cols dd))" and
    p: "k = length (value_cols dd) \<and> [ChartPage a, ChartPage b] = map ChartPage chs \<or>
      (\<exists>e. k < length (value_cols dd) \<and>
         build_chart ?lib dd (astype_str cc) ''Q1'' ?cs (value_cols dd ! k) = Inl e \<and>
         [ChartPage a, ChartPage b] = map ChartPage chs @ [ErrorPage ''Q1'' e])"
    by (elim exE conjE)
  have "(dd, cat_col) = (?q, ''Region'')" by (rule trans [OF w [symmetric] wq])
  then have dd: "dd = ?q" by (rule Pair_inject)
  from p have "\<exists>rest. [ChartPage a, ChartPage b] = map ChartPage chs @ rest \<and>
      (rest = [] \<or> (\<exists>e. rest = [ErrorPage ''Q1'' e]))" by auto
  then obtain rest where "[ChartPage a, ChartPage b] = map ChartPage chs @ rest"
    "rest = [] \<or> (\<exists>e. rest = [ErrorPage ''Q1'' e])" by blast
  from charts_only [OF this] have chs: "chs = [a, b]" by simp
  from t have "length chs = length (take k (value_cols dd))" by (rule map_eq_imp_length_eq)
  with chs k vq dd have "k = 2" by simp
  with t chs vq dd have "map title [a, b] =
      [''Q1'' @ title_sep @ ''Revenue'', ''Q1'' @ title_sep @ ''Revenue_SD'']" by simp
  with g show ?thesis by (intro exI conjI)
qed




text \<open>
  C7: with a palette that is not empty, every chart has one colour per category, and the
  colour of category \<open>i\<close> is the palette entry \<open>i mod P\<close>: the palette restarts in every
  chart.
\<close>

theorem palette_cycles_over_categories:
  assumes "cs \<noteq> []" and "ChartPage ch \<in> set (fst (render_sheet_to_pdf lib df0 [] l cs))"
  shows "length (color ch) = length (categories ch) \<and>
    (\<forall>i<length (categories ch). color ch ! i = cs ! (i mod length cs))"
proof -
  from chart_page_origin [OF assms(2)] obtain df c col where
    b: "build_chart lib df (astype_str c) l cs col = Inr ch" by blast
  from build_chart_fields(1,4) [OF b] cycle_colors_nth [OF _ assms(1)] show ?thesis by simp
qed

theorem palette_cycles_over_categories_witness:
  "\<exists>ch. fst (render_sheet_to_pdf no_formulas
       [(''Q'', Text [''a'', ''b'', ''c'', ''d'']), (''V'', Numeric [Fin 1, Fin 2, Fin 3, Fin 4])]
       [] ''S'' [''#002060'', ''#0050b3'', ''#7f7f7f'']) = [ChartPage ch] \<and>
     length (color ch) = 4 \<and> color ch ! 1 = ''#0050b3'' \<and> color ch ! 3 = ''#002060''"
proof -
  let ?df = "[(''Q'', Text [''a'', ''b'', ''c'', ''d'']), (''V'', Numeric [Fin 1, Fin 2, Fin 3, Fin 4])]"
  let ?cs = "[''#002060'', ''#0050b3'', ''#7f7f7f'']"
  have "\<exists>ch. fst (render_sheet_to_pdf no_formulas ?df [] ''S'' ?cs) = [ChartPage ch] \<and>
      length (categories ch) = 4"
    by (simp add: run_defs)
  then obtain ch where r: "fst (render_sheet_to_pdf no_formulas ?df [] ''S'' ?cs) = [ChartPage ch]"
    and n: "length (categories ch) = 4" by blast
  have ne: "?cs \<noteq> []" by simp
  from r have "ChartPage ch \<in> set (fst (render_sheet_to_pdf no_formulas ?df [] ''S'' ?cs))" by simp
  from palette_cycles_over_categories [OF ne this] n
  have len: "length (color ch) = 4" and all: "\<forall>i<4. color ch ! i = ?cs ! (i mod 3)" by simp_all
  from all have "color ch ! 1 = ?cs ! (1 mod 3)" "color ch ! 3 = ?cs ! (3 mod 3)" by simp_all
  then have "color ch ! 1 = ''#0050b3''" "color ch ! 3 = ''#002060''" by simp_all
  with r len show ?thesis by blast
qed

text \<open>
  C8: in a frame whose columns all have the same number of rows, every chart has as many
  category labels as values, and its error bars, when it has some, have that length too.
  The three lists are whole columns of the same frame in row order, so entry \<open>i\<close> of each
  belongs to row \<open>i\<close>.
\<close>

theorem chart_lists_aligned:
  assumes "well_formed df0"
    and "ChartPage ch \<in> set (fst (render_sheet_to_pdf lib df0 [] l cs))"
  shows "length (categories ch) = n_rows df0 \<and> col_len (heights ch) = n_rows df0 \<and>
    (\<forall>e. yerr ch = Some e \<longrightarrow> col_len e = n_rows df0) \<and>
    (\<exists>df cat_col c x. with_category df0 = (df, cat_col) \<and> getitem df cat_col = Some c \<and>
       categories ch = astype_str c \<and> getitem df x = Some (heights ch) \<and>
       yerr ch = (case find_error_col df x of None \<Rightarrow> None | Some ecol \<Rightarrow> getitem df ecol))"
proof -
  from chart_page_origin [OF assms(2)] obtain df cat_col c x where
    wc: "with_category df0 = (df, cat_col)" and c: "getitem df cat_col = Some c" and
    b: "build_chart lib df (astype_str c) l cs x = Inr ch" by blast
  from well_formed_with_category [OF assms(1) wc] have wf: "well_formed df" and
    n: "n_rows df = n_rows df0" by simp_all
  note f = build_chart_fields [OF b]
  have 1: "length (categories ch) = n_rows df0"
    using f(1) well_formed_getitem_len [OF wf c] n by (simp add: length_astype_str)
  have 2: "col_len (heights ch) = n_rows df0"
    using well_formed_getitem_len [OF wf f(2)] n by simp
  have y: "yerr ch = (case find_error_col df x of None \<Rightarrow> None | Some ecol \<Rightarrow> getitem df ecol)"
    by (rule build_chart_yerr [OF b])
  have 3: "\<forall>e. yerr ch = Some e \<longrightarrow> col_len e = n_rows df0"
    using y well_formed_getitem_len [OF wf] n by (auto split: option.splits)
  from 1 2 3 wc c f(1,2) y show ?thesis by blast
qed

theorem chart_lists_aligned_witness:
  "\<exists>ch ch'. fst (render_sheet_to_pdf no_formulas
       [(''Region'', Text [''North'', ''South'']), (''Revenue'', Numeric [Fin 100, Fin 80]),
        (''Revenue_SD'', Numeric [Fin 5, Fin 3])] [] ''Q1'' [''#002060'']) =
         [ChartPage ch, ChartPage ch'] \<and>
     yerr ch = Some (Numeric [Fin 5, Fin 3]) \<and>
     length (categories ch) = 2 \<and> col_len (heights ch) = 2 \<and>
     col_len (Numeric [Fin 5, Fin 3]) = 2"
proof -
  let ?df = "[(''Region'', Text [''North'', ''South'']), (''Revenue'', Numeric [Fin 100, Fin 80]),
        (''Revenue_SD'', Numeric [Fin 5, Fin 3])]"
  have "\<exists>ch ch'. fst (render_sheet_to_pdf no_formulas ?df [] ''Q1'' [''#002060'']) = [ChartPage ch, ChartPage ch'] \<and>
      yerr ch = Some (Numeric [Fin 5, Fin 3])"
    by (simp add: run_defs)
  then obtain ch ch' where
    r: "fst (render_sheet_to_pdf no_formulas ?df [] ''Q1'' [''#002060'']) = [ChartPage ch, ChartPage ch']"
    and y: "yerr ch = Some (Numeric [Fin 5, Fin 3])" by blast
  have wf: "well_formed ?df" by (simp add: well_formed_def columns_def n_rows_def)
  have n: "n_rows ?df = 2" by (simp add: n_rows_def)
  from r have "ChartPage ch \<in> set (fst (render_sheet_to_pdf no_formulas ?df [] ''Q1'' [''#002060'']))" by simp
  from chart_lists_aligned [OF wf this] y n
  have "length (categories ch) = 2" "col_len (heights ch) = 2" "col_len (Numeric [Fin 5, Fin 3]) = 2"
    by simp_all
  with r y show ?thesis by blast
qed

text \<open>
  C9 is what the loop over the sheets is written for, and the program misses a case: the
  handler that writes the text page of a failed sheet is not protected itself. In a
  workbook with the sheets \<open>$^$\<close> and \<open>Good\<close>, the title of the chart of \<open>$^$\<close> is a formula
  that does not parse, so the sheet fails; the text page repeats the sheet name, so
  drawing it fails again, outside every \<open>try\<close>. The run ends without a document and
  the chart of \<open>Good\<close>, which is saved when \<open>Good\<close> is the only sheet, is lost.
\<close>

theorem unprotected_handler_ends_run:
  assumes "\<not> parses lib (''$^$'' @ title_sep @ ''A'')"
    and "\<not> draws_error lib ''$^$''
           (ValueError (Formula [Str (''$^$'' @ title_sep @ ''A''), Str ''a'', Str ''b'']))"
  shows "generate_pdf lib [''#002060'', ''#0050b3'', ''#7f7f7f'']
       [(''$^$'', [(''Name'', Text [''a'', ''b'']), (''A'', Numeric [Fin 1, Fin 2])]),
        (''Good'', [(''Name'', Text [''a'', ''b'']), (''A'', Numeric [Fin 1, Fin 2])])] = None \<and>
     generate_pdf lib [''#002060'', ''#0050b3'', ''#7f7f7f'']
       [(''Good'', [(''Name'', Text [''a'', ''b'']), (''A'', Numeric [Fin 1, Fin 2])])] =
       Some [ChartPage \<lparr>title = ''Good'' @ title_sep @ ''A'',
         categories = [Str ''a'', Str ''b''],
         heights = Numeric [Fin 1, Fin 2],
         yerr = None,
         color = [''#002060'', ''#0050b3''],
         ylim = (0, 2.4),
         legend_labels = [Str ''a'', Str ''b''],
         legend_ncol = 2\<rparr>]"
  using assms by (simp add: run_defs)

theorem unprotected_handler_ends_run_witness:
  "generate_pdf no_formulas [''#002060'', ''#0050b3'', ''#7f7f7f'']
       [(''$^$'', [(''Name'', Text [''a'', ''b'']), (''A'', Numeric [Fin 1, Fin 2])]),
        (''Good'', [(''Name'', Text [''a'', ''b'']), (''A'', Numeric [Fin 1, Fin 2])])] = None \<and>
   (\<exists>ch. generate_pdf no_formulas [''#002060'', ''#0050b3'', ''#7f7f7f'']
       [(''Good'', [(''Name'', Text [''a'', ''b'']), (''A'', Numeric [Fin 1, Fin 2])])] =
       Some [ChartPage ch])"
proof -
  have 1: "\<not> parses no_formulas (''$^$'' @ title_sep @ ''A'')" by (simp add: no_formulas_def)
  have 2: "\<not> draws_error no_formulas ''$^$''
           (ValueError (Formula [Str (''$^$'' @ title_sep @ ''A''), Str ''a'', Str ''b'']))"
    by (simp add: no_formulas_def)
  from unprotected_handler_ends_run [OF 1 2] show ?thesis by blast
qed

text \<open>
  C10: in a frame whose columns are all numeric and which has a column \<open>Index\<close>, that
  column is overwritten where it stands by the row positions as strings. The labels of
  the frame stay the same, the other numeric columns are still charted, and no chart has
  the title of \<open>Index\<close>.
\<close>

theorem numeric_Index_column_overwritten:
  assumes "list_all (\<lambda>(n, k). is_numeric_dtype k) df0" and "''Index'' \<in> set (columns df0)"
  shows "with_category df0 =
      (setitem df0 ''Index'' (Text (map str_nat [0..<n_rows df0])), ''Index'') \<and>
    columns (fst (with_category df0)) = columns df0 \<and>
    getitem (fst (with_category df0)) ''Index'' = Some (Text (map str_nat [0..<n_rows df0])) \<and>
    value_cols (fst (with_category df0)) = filter (\<lambda>n. n \<noteq> ''Index'') (value_cols df0) \<and>
    (\<forall>ch. ChartPage ch \<in> set (fst (render_sheet_to_pdf lib df0 [] l cs)) \<longrightarrow>
       title ch \<noteq> l @ title_sep @ ''Index'' \<and>
       categories ch = map Str (map str_nat [0..<n_rows df0]))"
proof -
  note w = with_category_all_numeric(2) [OF assms(1)]
  have "\<forall>ch. ChartPage ch \<in> set (fst (render_sheet_to_pdf lib df0 [] l cs)) \<longrightarrow>
       title ch \<noteq> l @ title_sep @ ''Index'' \<and>
       categories ch = map Str (map str_nat [0..<n_rows df0])"
    using all_numeric_categories [OF assms(1)] by fastforce
  with w assms(2) show ?thesis
    by (simp add: columns_setitem getitem_setitem value_cols_setitem_text)
qed

theorem numeric_Index_column_overwritten_witness:
  "value_cols (fst (with_category
      [(''Index'', Numeric [Fin 7, Fin 9]), (''A'', Numeric [Fin 1, Fin 2])])) = [''A''] \<and>
   getitem (fst (with_category
      [(''Index'', Numeric [Fin 7, Fin 9]), (''A'', Numeric [Fin 1, Fin 2])])) ''Index'' =
     Some (Text [''0'', ''1'']) \<and>
   (\<exists>ch. fst (render_sheet_to_pdf no_formulas
        [(''Index'', Numeric [Fin 7, Fin 9]), (''A'', Numeric [Fin 1, Fin 2])] [] ''S''
        [''#002060'']) = [ChartPage ch] \<and>
      title ch \<noteq> ''S'' @ title_sep @ ''Index'' \<and> categories ch = [Str ''0'', Str ''1''])"
proof -
  let ?d = "[(''Index'', Numeric [Fin 7, Fin 9]), (''A'', Numeric [Fin 1, Fin 2])]"
  let ?cs = "[''#002060'']"
  have all: "list_all (\<lambda>(n, k). is_numeric_dtype k) ?d" by simp
  have i: "''Index'' \<in> set (columns ?d)" by (simp add: columns_def)
  have idx: "map str_nat [0..<n_rows ?d] = [''0'', ''1'']"
    by (simp add: n_rows_def str_nat.simps upt_conv_Cons)
  have "\<exists>ch. fst (render_sheet_to_pdf no_formulas ?d [] ''S'' ?cs) = [ChartPage ch]"
    by (simp add: run_defs)
  then obtain ch where r: "fst (render_sheet_to_pdf no_formulas ?d [] ''S'' ?cs) = [ChartPage ch]" ..
  have m: "ChartPage ch \<in> set (fst (render_sheet_to_pdf no_formulas ?d [] ''S'' ?cs))"
    by (simp only: r list.set_intros)
  note t = numeric_Index_column_overwritten [OF all i, of no_formulas "''S''" ?cs]
  note g = t [THEN conjunct2, THEN conjunct2, THEN conjunct1]
  note v = t [THEN conjunct2, THEN conjunct2, THEN conjunct2, THEN conjunct1]
  note p = t [THEN conjunct2, THEN conjunct2, THEN conjunct2, THEN conjunct2, rule_format, OF m]
  have 1: "getitem (fst (with_category ?d)) ''Index'' = Some (Text [''0'', ''1''])"
    using g by (simp only: idx)
  have vc: "filter (\<lambda>n. n \<noteq> ''Index'') (value_cols ?d) = [''A'']"
    by (simp add: value_cols_def)
  have 2: "value_cols (fst (with_category ?d)) = [''A'']"
    using v by (simp only: vc)
  have 3: "title ch \<noteq> ''S'' @ title_sep @ ''Index''" "categories ch = [Str ''0'', Str ''1'']"
    using p by (simp_all only: idx list.map simp_thms)
  from r 3 have "\<exists>ch. fst (render_sheet_to_pdf no_formulas ?d [] ''S'' ?cs) = [ChartPage ch] \<and>
      title ch \<noteq> ''S'' @ title_sep @ ''Index'' \<and> categories ch = [Str ''0'', Str ''1'']"
    by blast
  with 1 2 show ?thesis by (intro conjI)
qed

end
